theory Spec2Isabelle
  imports Complex_Main "HOL-Library.Multiset"
begin

section \<open>Python values and exceptions\<close>

text \<open>
  A model of \<^verbatim>\<open>vcfScan.py\<close>: the classes BinomialTest, vcfScan, lineageScan and
  FastaMixtureMarker. A method becomes a function from the object and the arguments to the
  result and the object afterwards; an exception is a value of \<open>pyerr\<close>.
  Reading files is outside the model: a variant file is the list of its lines, a sequence
  file is its sequence, a table is the list of its rows.
\<close>

datatype pyerr =
    TypeError | ValueError | KeyError | IndexError | EOFError
  | AttributeError | UnboundLocalError

text \<open>
  An argument of dynamic type. Python's \<^verbatim>\<open>float\<close> is modelled as a real number:
  the model keeps the control flow of the code and not the rounding of IEEE arithmetic.
\<close>

datatype pyval = PyNone | PyBool bool | PyInt int | PyFloat real | PyStr string

section \<open>Strings\<close>

text \<open>
\<^verbatim>\<open>"{0}".format(n)\<close> for an integer: its decimal digits, with a minus sign.
\<close>

definition digit_char :: "nat \<Rightarrow> char" where
  "digit_char n = ''0123456789'' ! n"

function str_nat :: "nat \<Rightarrow> string" where
  "str_nat n = (if n < 10 then [digit_char n] else str_nat (n div 10) @ [digit_char (n mod 10)])"
  by pat_completeness auto

termination
  by (relation "measure id") auto

declare str_nat.simps [simp del]

definition str_int :: "int \<Rightarrow> string" where
  "str_int i = (if i < 0 then CHR ''-'' # str_nat (nat (- i)) else str_nat (nat i))"

text \<open>
The value of a string of decimal digits, and the test for a digit.
\<close>

definition digits_val :: "string \<Rightarrow> nat" where
  "digits_val s = foldl (\<lambda>a c. 10 * a + (of_char c - 48)) 0 s"

definition is_digit :: "char \<Rightarrow> bool" where
  "is_digit c = (48 \<le> (of_char c :: nat) \<and> (of_char c :: nat) \<le> 57)"

text \<open>
  \<^verbatim>\<open>str.split()\<close> without argument splits at runs of white space and drops empty
  pieces. A character is read as the code point of its number; the white space below 256
  is 9 to 13, 28 to 32, 133 and 160.
\<close>

definition is_space :: "char \<Rightarrow> bool" where
  "is_space c =
     (let n = (of_char c :: nat)
      in (9 \<le> n \<and> n \<le> 13) \<or> (28 \<le> n \<and> n \<le> 32) \<or> n = 133 \<or> n = 160)"

fun py_split :: "string \<Rightarrow> string \<Rightarrow> string list" where
  "py_split cur [] = (if cur = [] then [] else [cur])"
| "py_split cur (c # cs) =
     (if is_space c then (if cur = [] then py_split [] cs else cur # py_split [] cs)
      else py_split (cur @ [c]) cs)"

definition split_ws :: "string \<Rightarrow> string list" where
  "split_ws s = py_split [] s"

text \<open>
\<^verbatim>\<open>s.split(sep)\<close> for a separator of one character: empty pieces are kept.
\<close>

fun split_on_acc :: "char \<Rightarrow> string \<Rightarrow> string \<Rightarrow> string list" where
  "split_on_acc sep cur [] = [cur]"
| "split_on_acc sep cur (c # cs) =
     (if c = sep then cur # split_on_acc sep [] cs else split_on_acc sep (cur @ [c]) cs)"

definition split_on :: "char \<Rightarrow> string \<Rightarrow> string list" where
  "split_on sep s = split_on_acc sep [] s"

text \<open>
\<^verbatim>\<open>sub in s\<close> for strings.
\<close>

fun starts_with :: "string \<Rightarrow> string \<Rightarrow> bool" where
  "starts_with [] s = True"
| "starts_with (p # ps) [] = False"
| "starts_with (p # ps) (c # cs) = (p = c \<and> starts_with ps cs)"

fun str_contains :: "string \<Rightarrow> string \<Rightarrow> bool" where
  "str_contains sub [] = (sub = [])"
| "str_contains sub (c # cs) = (starts_with sub (c # cs) \<or> str_contains sub cs)"

text \<open>
  \<^verbatim>\<open>int(s)\<close> for a string without white space: an optional sign, then digits, where
  single underscores may stand between digits. \<open>None\<close> is ValueError.
\<close>

definition py_nat :: "string \<Rightarrow> nat option" where
  "py_nat s =
     (let groups = split_on CHR ''_'' s
      in if list_all (\<lambda>g. g \<noteq> [] \<and> list_all is_digit g) groups
         then Some (digits_val (concat groups)) else None)"

definition py_int :: "string \<Rightarrow> int option" where
  "py_int s =
     (case s of
        [] \<Rightarrow> None
      | c # rest \<Rightarrow>
          if c = CHR ''-'' then map_option (\<lambda>n. - int n) (py_nat rest)
          else if c = CHR ''+'' then map_option int (py_nat rest)
          else map_option int (py_nat s))"

fun py_ints :: "string list \<Rightarrow> int list option" where
  "py_ints [] = Some []"
| "py_ints (s # ss) =
     (case py_int s of
        None \<Rightarrow> None
      | Some i \<Rightarrow> (case py_ints ss of None \<Rightarrow> None | Some is \<Rightarrow> Some (i # is)))"

section \<open>Dictionaries, sets and lists\<close>

text \<open>
  A Python dictionary whose keys are enumerated is an association list in insertion order:
  \<open>dict_set\<close> replaces the value of a key that is present and appends a new key;
  \<open>map_of\<close> looks a key up. A Python set that is iterated is a list without duplicates.
\<close>

fun dict_set :: "('k \<times> 'v) list \<Rightarrow> 'k \<Rightarrow> 'v \<Rightarrow> ('k \<times> 'v) list" where
  "dict_set [] k v = [(k, v)]"
| "dict_set ((k', v') # d) k v = (if k' = k then (k, v) # d else (k', v') # dict_set d k v)"

definition set_add :: "'a \<Rightarrow> 'a list \<Rightarrow> 'a list" where
  "set_add x xs = (if x \<in> set xs then xs else xs @ [x])"

text \<open>
\<^verbatim>\<open>xs.index(x)\<close>; \<open>None\<close> is ValueError.
\<close>

fun index_of :: "'a \<Rightarrow> 'a list \<Rightarrow> nat option" where
  "index_of x [] = None"
| "index_of x (y # ys) = (if x = y then Some 0 else map_option Suc (index_of x ys))"

text \<open>
\<^verbatim>\<open>xs[i] = v\<close>: a negative index counts from the end.
\<close>

definition list_set :: "'a list \<Rightarrow> int \<Rightarrow> 'a \<Rightarrow> pyerr + 'a list" where
  "list_set xs i v =
     (if 0 \<le> i \<and> i < int (length xs) then Inr (xs[nat i := v])
      else if i < 0 \<and> - int (length xs) \<le> i then Inr (xs[nat (int (length xs) + i) := v])
      else Inl IndexError)"

section \<open>BinomialTest\<close>

text \<open>
  \<^verbatim>\<open>self.p_values\<close> is a dictionary from the formatted key to the stored p-value.
  \<open>tests_run\<close> is not a field of the class: it counts the calls of
  \<^verbatim>\<open>stats.binom_test\<close>, also those that raise; they are the one effect of
  \<^verbatim>\<open>compute\<close> outside the object.
\<close>

record BinomialTest =
  expectedErrorRate :: real
  p_values :: "string \<rightharpoonup> real"
  tests_run :: nat

text \<open>
\<^verbatim>\<open>__init__\<close>: the only check is \<^verbatim>\<open>isinstance(expectedErrorRate, float)\<close>.
\<close>

fun BinomialTest_init :: "pyval \<Rightarrow> pyerr + BinomialTest" where
  "BinomialTest_init (PyFloat r) =
     Inr \<lparr>expectedErrorRate = r, p_values = Map.empty, tests_run = 0\<rparr>"
| "BinomialTest_init _ = Inl TypeError"

text \<open>
\<^verbatim>\<open>key = "{0},{1}".format(minor_variant_count, depth)\<close>
\<close>

definition cache_key :: "int \<Rightarrow> int \<Rightarrow> string" where
  "cache_key minor_variant_count depth = str_int minor_variant_count @ '','' @ str_int depth"

text \<open>
  The transform of the p-value at the end of \<^verbatim>\<open>compute\<close>.
  \<^verbatim>\<open>math.log(p, 10)\<close> is \<open>ln p / ln 10\<close> and raises ValueError for a negative
  argument. The branch for a p-value that is None is not reached: the test returns a float.
\<close>

definition mlp_of :: "real \<Rightarrow> pyerr + real" where
  "mlp_of p_value =
     (if p_value = 0 then Inr 250
      else if p_value < 0 then Inl ValueError
      else Inr (- log 10 p_value))"

text \<open>
  The call \<^verbatim>\<open>stats.binom_test(x=..., n=..., p=...)\<close>. The library function checks its
  arguments before it computes: it raises ValueError ("n must be >= x") when the count
  exceeds the depth, and ValueError ("p must be in range [0,1]") when the rate is
  outside that interval. The parameter \<open>binom_test\<close> is the p-value it computes
  otherwise.
\<close>

definition binom_test_call ::
  "(int \<Rightarrow> int \<Rightarrow> real \<Rightarrow> real) \<Rightarrow> int \<Rightarrow> int \<Rightarrow> real \<Rightarrow> pyerr + real" where
  "binom_test_call binom_test x n p =
     (if n < x then Inl ValueError
      else if p > 1 \<or> p < 0 then Inl ValueError
      else Inr (binom_test x n p))"

text \<open>
  \<^verbatim>\<open>compute\<close>. The result is the pair the method returns (or the exception it
  raises) and the object afterwards. When the test raises, nothing is stored under the
  key and the exception leaves the method.
\<close>

definition compute ::
  "(int \<Rightarrow> int \<Rightarrow> real \<Rightarrow> real) \<Rightarrow> BinomialTest \<Rightarrow> int \<Rightarrow> int
     \<Rightarrow> (pyerr + real option \<times> real option) \<times> BinomialTest" where
  "compute binom_test self minor_variant_count depth =
     (if depth = 0 then (Inr (None, None), self)
      else if minor_variant_count = depth then (Inr (Some 1, Some 0), self)
      else
        let key = cache_key minor_variant_count depth;
            (looked_up, self') =
              (case p_values self key of
                 Some p \<Rightarrow> (Inr p, self)
               | None \<Rightarrow>
                   (case binom_test_call binom_test minor_variant_count depth
                           (expectedErrorRate self) of
                      Inl e \<Rightarrow> (Inl e, self\<lparr>tests_run := Suc (tests_run self)\<rparr>)
                    | Inr p \<Rightarrow>
                        (Inr p, self\<lparr>p_values := (p_values self)(key \<mapsto> p),
                                     tests_run := Suc (tests_run self)\<rparr>)))
        in (case looked_up of
              Inl e \<Rightarrow> (Inl e, self')
            | Inr p_value \<Rightarrow>
                (case mlp_of p_value of
                   Inl e \<Rightarrow> (Inl e, self')
                 | Inr mlp \<Rightarrow> (Inr (Some p_value, Some mlp), self'))))"

text \<open>
  \<open>cache_ok\<close>: every stored p-value is the one the test gives for the pair of its key.
  It holds of a new object and every call of \<open>compute\<close> keeps it.
\<close>

definition cache_ok :: "(int \<Rightarrow> int \<Rightarrow> real \<Rightarrow> real) \<Rightarrow> BinomialTest \<Rightarrow> bool" where
  "cache_ok binom_test self =
     (\<forall>m d p. p_values self (cache_key m d) = Some p
        \<longrightarrow> p = binom_test m d (expectedErrorRate self))"

section \<open>vcfScan: the region index\<close>

text \<open>
One row of \<^verbatim>\<open>self.bases\<close>; the fields are the columns of the data frame.
\<close>

record base_row =
  col_roi_name :: string
  col_pos :: int
  col_ref :: string
  col_depth :: int
  col_base_a :: int
  col_base_c :: int
  col_base_g :: int
  col_base_t :: int
  col_maf :: "real option"
  col_mlp :: "real option"

text \<open>
  The object. \<^verbatim>\<open>roi2psn\<close> maps a region to its set of positions; \<^verbatim>\<open>psn2roi\<close>
  maps a position to the regions that hold it: its keys are sorted by the scan and its
  values are iterated, in an order Python does not fix; the list fixes one.
  \<^verbatim>\<open>self.expectedErrorRate\<close> is kept in \<open>bt\<close>.
\<close>

record vcfScan =
  roi2psn :: "string \<rightharpoonup> int set"
  psn2roi :: "(int \<times> string list) list"
  infotag :: "string option"
  fieldtag :: "string option"
  report_minimum_maf :: real
  compute_pvalue :: bool
  bt :: BinomialTest
  guid :: "string option"
  bases :: "base_row list option"

definition vcfScan_init :: "pyval \<Rightarrow> string option \<Rightarrow> real \<Rightarrow> bool \<Rightarrow> pyerr + vcfScan" where
  "vcfScan_init expected_error_rate tag minimum_maf with_pvalue =
     (case BinomialTest_init expected_error_rate of
        Inl e \<Rightarrow> Inl e
      | Inr b \<Rightarrow>
          Inr \<lparr>roi2psn = Map.empty, psn2roi = [], infotag = tag, fieldtag = None,
               report_minimum_maf = minimum_maf, compute_pvalue = with_pvalue, bt = b,
               guid = None, bases = None\<rparr>)"

text \<open>
  \<^verbatim>\<open>add_roi\<close>. The assignment \<^verbatim>\<open>self.roi2psn[roi_name] = set([])\<close> never raises
  KeyError, so it runs on every call. The loop raises ValueError when it reaches a zero,
  after it has stored the positions before it. The result is the exception raised, if any,
  and the object afterwards. \<open>roi_positions\<close> is the argument in iteration order.
\<close>

fun add_roi_positions :: "string \<Rightarrow> int list \<Rightarrow> vcfScan \<Rightarrow> pyerr option \<times> vcfScan" where
  "add_roi_positions roi_name [] self = (None, self)"
| "add_roi_positions roi_name (roi_position # rest) self =
     (if roi_position = 0 then (Some ValueError, self)
      else case roi2psn self roi_name of
             None \<Rightarrow> (Some KeyError, self)
           | Some psns \<Rightarrow>
               add_roi_positions roi_name rest
                 (self\<lparr>roi2psn := (roi2psn self)(roi_name \<mapsto> insert roi_position psns),
                       psn2roi :=
                         (case map_of (psn2roi self) roi_position of
                            Some names \<Rightarrow>
                              dict_set (psn2roi self) roi_position (set_add roi_name names)
                          | None \<Rightarrow> dict_set (psn2roi self) roi_position [roi_name])\<rparr>))"

definition add_roi :: "string \<Rightarrow> int list \<Rightarrow> vcfScan \<Rightarrow> pyerr option \<times> vcfScan" where
  "add_roi roi_name roi_positions self =
     add_roi_positions roi_name roi_positions (self\<lparr>roi2psn := (roi2psn self)(roi_name \<mapsto> {})\<rparr>)"

text \<open>
  The two dictionaries agree: a position is in a region's set exactly when the region is
  in the position's set.
\<close>

definition index_consistent :: "vcfScan \<Rightarrow> bool" where
  "index_consistent self =
     (\<forall>p r. (\<exists>psns. roi2psn self r = Some psns \<and> p \<in> psns)
          = (\<exists>names. map_of (psn2roi self) p = Some names \<and> r \<in> set names))"

section \<open>vcfScan: scanning a variant file\<close>

text \<open>
  The outcome of one pass of the loop body: go on with the next line, leave the loop
  (\<^verbatim>\<open>break\<close>), or raise. Each carries the state reached.
\<close>

datatype 'a flow = Next 'a | Break 'a | Raise pyerr 'a


text \<open>
  The local variables of \<^verbatim>\<open>_parse\<close> and the object. \<open>resDict\<close> holds the rows in
  the order of their keys. \<open>gap_warnings\<close> counts the calls of \<^verbatim>\<open>logging.warn\<close>;
  the other warnings of the method are not recorded.
\<close>

record scan_state =
  sought_psns :: "int list"
  sought_now :: int
  warning_emitted :: bool
  gap_warnings :: nat
  resDict :: "base_row list"
  scan_obj :: vcfScan

text \<open>
  \<^verbatim>\<open>sought_now = 1e12\<close>, "bigger than any genome". Python compares an int and a
  float by value, so the integer stands for the float.
\<close>

definition unreachable_psn :: int where
  "unreachable_psn = 1000000000000"

text \<open>
  \<^verbatim>\<open>while sought_now <= pos\<close>: take the next sought position, or the value above when
  none is left. The loop need not end, so the function is partial: \<open>None\<close> is a loop
  that runs forever.
\<close>

partial_function (option) catch_up :: "int \<Rightarrow> int \<Rightarrow> int list \<Rightarrow> (int \<times> int list) option" where
  "catch_up pos now psns =
     (if now \<le> pos then
        (case psns of
           [] \<Rightarrow> catch_up pos unreachable_psn []
         | p # rest \<Rightarrow> catch_up pos p rest)
      else Some (now, psns))"

text \<open>
  Lines 382 to 392: when the position of the line is beyond the sought one, warn once per
  scan and catch up.
\<close>

definition catch_up_gap :: "int \<Rightarrow> scan_state \<Rightarrow> scan_state option" where
  "catch_up_gap pos s =
     (if \<not> pos \<le> sought_now s then
        (let s1 = (if warning_emitted s then s
                   else s\<lparr>warning_emitted := True, gap_warnings := Suc (gap_warnings s)\<rparr>)
         in case catch_up pos (sought_now s1) (sought_psns s1) of
              None \<Rightarrow> None
            | Some (now, psns) \<Rightarrow> Some (s1\<lparr>sought_now := now, sought_psns := psns\<rparr>))
      else Some s)"

text \<open>
What catching up yields when it ends: the sought positions up to \<open>pos\<close> are dropped.
\<close>

definition after_gap :: "int \<Rightarrow> int list \<Rightarrow> int \<times> int list" where
  "after_gap pos psns =
     (case dropWhile (\<lambda>p. p \<le> pos) psns of
        [] \<Rightarrow> (unreachable_psn, [])
      | p # rest \<Rightarrow> (p, rest))"

text \<open>
  \<^verbatim>\<open>dict(item.split("=") for item in infos.split(";"))\<close>: an item that does not split
  into two pieces raises ValueError; a later item replaces an earlier one with its key.
\<close>

fun infos_dict :: "string list \<Rightarrow> (string \<times> string) list \<Rightarrow> pyerr + (string \<times> string) list" where
  "infos_dict [] d = Inr d"
| "infos_dict (item # items) d =
     (case split_on CHR ''='' item of
        [k, v] \<Rightarrow> infos_dict items (dict_set d k v)
      | _ \<Rightarrow> Inl ValueError)"

text \<open>
  Lines 403 to 412: with \<^verbatim>\<open>infotag == 'auto'\<close> the tag is chosen at the first matched
  line and stored in the object.
\<close>

definition autodetect :: "vcfScan \<Rightarrow> (string \<times> string) list \<Rightarrow> string list \<Rightarrow> pyerr + vcfScan" where
  "autodetect obj infos field_keys =
     (if infotag obj = Some ''auto'' then
        (if ''AD'' \<in> set field_keys then Inr (obj\<lparr>infotag := None, fieldtag := Some ''AD''\<rparr>)
         else if map_of infos ''AD'' \<noteq> None then Inr (obj\<lparr>infotag := Some ''AD''\<rparr>)
         else if map_of infos ''BaseCounts4'' \<noteq> None then Inr (obj\<lparr>infotag := Some ''BaseCounts4''\<rparr>)
         else Inl KeyError)
      else Inr obj)"

text \<open>
  Lines 415 to 422: the depths of the info tag. A missing tag raises KeyError; a depth that
  is not an integer gives four zeros. \<open>None\<close> is a variable not yet assigned.
\<close>

definition counts_from_info :: "vcfScan \<Rightarrow> (string \<times> string) list \<Rightarrow> pyerr + int list option" where
  "counts_from_info obj infos =
     (case infotag obj of
        None \<Rightarrow> Inr None
      | Some tag \<Rightarrow>
          (case map_of infos tag of
             None \<Rightarrow> Inl KeyError
           | Some v \<Rightarrow>
               (case py_ints (split_on CHR '','' v) of
                  None \<Rightarrow> Inr (Some [0, 0, 0, 0])
                | Some counts \<Rightarrow> Inr (Some counts))))"

text \<open>
  Lines 424 to 428: the depths of the AD field of the sample column. Here a depth that is
  not an integer raises ValueError, as does a format column without AD; a sample column
  that is too short raises IndexError.
\<close>

definition counts_from_sample ::
  "vcfScan \<Rightarrow> string list \<Rightarrow> string list \<Rightarrow> int list option \<Rightarrow> pyerr + int list option" where
  "counts_from_sample obj field_keys sampleInfo baseCounts =
     (if fieldtag obj = Some ''AD'' then
        (case index_of ''AD'' field_keys of
           None \<Rightarrow> Inl ValueError
         | Some i \<Rightarrow>
             if length sampleInfo \<le> i then Inl IndexError
             else (case py_ints (split_on CHR '','' (sampleInfo ! i)) of
                     None \<Rightarrow> Inl ValueError
                   | Some counts \<Rightarrow> Inr (Some counts)))
      else Inr baseCounts)"

text \<open>
  Lines 430 to 441: with an AD tag the first depth belongs to the reference base and the
  following ones to the alternative bases in their order.
\<close>

fun scatter_alts ::
  "string list \<Rightarrow> nat \<Rightarrow> int list \<Rightarrow> (string \<times> int) list \<Rightarrow> pyerr + (string \<times> int) list" where
  "scatter_alts [] counter baseCounts basedict = Inr basedict"
| "scatter_alts (alt # alts) counter baseCounts basedict =
     (if length baseCounts \<le> Suc counter then Inl IndexError
      else scatter_alts alts (Suc counter) baseCounts
             (dict_set basedict alt (baseCounts ! Suc counter)))"

definition basedict_get :: "(string \<times> int) list \<Rightarrow> string \<Rightarrow> int" where
  "basedict_get basedict b = (case map_of basedict b of Some n \<Rightarrow> n | None \<Rightarrow> 0)"

definition counts_by_allele ::
  "vcfScan \<Rightarrow> string \<Rightarrow> string list \<Rightarrow> int list \<Rightarrow> pyerr + int list" where
  "counts_by_allele obj ref alts baseCounts =
     (if infotag obj = Some ''AD'' \<or> fieldtag obj = Some ''AD'' then
        (case baseCounts of
           [] \<Rightarrow> Inl IndexError
         | ref_depth # _ \<Rightarrow>
             (case scatter_alts alts 0 baseCounts
                     (dict_set [(''A'', 0), (''C'', 0), (''G'', 0), (''T'', 0)] ref ref_depth) of
                Inl e \<Rightarrow> Inl e
              | Inr basedict \<Rightarrow>
                  Inr [basedict_get basedict ''A'', basedict_get basedict ''C'',
                       basedict_get basedict ''G'', basedict_get basedict ''T'']))
      else Inr baseCounts)"

text \<open>
Lines 396 to 441 together; the object is returned since auto-detection changes it.
\<close>

definition extract_baseCounts ::
  "vcfScan \<Rightarrow> string \<Rightarrow> string \<Rightarrow> string \<Rightarrow> string \<Rightarrow> string \<Rightarrow> (pyerr + int list) \<times> vcfScan" where
  "extract_baseCounts obj ref alts_col infos_col fields_col sample_col =
     (let alts = filter (\<lambda>i. i \<in> {''A'', ''T'', ''C'', ''G''}) (split_on CHR '','' alts_col)
      in case infos_dict (split_on CHR '';'' infos_col) [] of
           Inl e \<Rightarrow> (Inl e, obj)
         | Inr infos \<Rightarrow>
             (let field_keys = split_on CHR '':'' fields_col;
                  sampleInfo = split_on CHR '':'' sample_col
              in case autodetect obj infos field_keys of
                   Inl e \<Rightarrow> (Inl e, obj)
                 | Inr obj1 \<Rightarrow>
                     (case counts_from_info obj1 infos of
                        Inl e \<Rightarrow> (Inl e, obj1)
                      | Inr c1 \<Rightarrow>
                          (case counts_from_sample obj1 field_keys sampleInfo c1 of
                             Inl e \<Rightarrow> (Inl e, obj1)
                           | Inr None \<Rightarrow> (Inl UnboundLocalError, obj1)
                           | Inr (Some c2) \<Rightarrow> (counts_by_allele obj1 ref alts c2, obj1)))))"

text \<open>
Lines 463 to 468: whether a row is reported.
\<close>

definition report_base :: "real option \<Rightarrow> real \<Rightarrow> bool" where
  "report_base maf minimum_maf =
     (case maf of None \<Rightarrow> \<not> minimum_maf > 0 | Some m \<Rightarrow> \<not> m < minimum_maf)"

definition new_row ::
  "string \<Rightarrow> int \<Rightarrow> string \<Rightarrow> int \<Rightarrow> int list \<Rightarrow> real option \<Rightarrow> real option \<Rightarrow> base_row" where
  "new_row name pos ref depth baseCounts maf mlp =
     \<lparr>col_roi_name = name, col_pos = pos, col_ref = ref, col_depth = depth,
      col_base_a = baseCounts ! 0, col_base_c = baseCounts ! 1,
      col_base_g = baseCounts ! 2, col_base_t = baseCounts ! 3,
      col_maf = maf, col_mlp = mlp\<rparr>"

text \<open>
Lines 481 to 484: \<^verbatim>\<open>popleft\<close>, leaving the loop when nothing is sought any more.
\<close>

definition next_sought :: "scan_state \<Rightarrow> scan_state flow" where
  "next_sought s =
     (case sought_psns s of
        [] \<Rightarrow> Break s
      | p # rest \<Rightarrow> Next (s\<lparr>sought_now := p, sought_psns := rest\<rparr>))"

text \<open>
  Lines 394 to 484: the line holds the sought position. The exception of the length check
  is AttributeError, since its message reads \<^verbatim>\<open>self.infos\<close>, which no object has.
\<close>

definition matched ::
  "(int \<Rightarrow> int \<Rightarrow> real \<Rightarrow> real) \<Rightarrow> int \<Rightarrow> string \<Rightarrow> string \<Rightarrow> string \<Rightarrow> string \<Rightarrow> string
     \<Rightarrow> scan_state \<Rightarrow> scan_state flow" where
  "matched binom_test pos ref alts_col infos_col fields_col sample_col s =
     (case extract_baseCounts (scan_obj s) ref alts_col infos_col fields_col sample_col of
        (Inl e, obj1) \<Rightarrow> Raise e (s\<lparr>scan_obj := obj1\<rparr>)
      | (Inr baseCounts, obj1) \<Rightarrow>
          (let baseFreqs = rev (sort baseCounts)
           in if length baseFreqs \<noteq> 4 then Raise AttributeError (s\<lparr>scan_obj := obj1\<rparr>)
              else
                (let depth = sum_list baseCounts;
                     (pm, bt1) =
                       (if compute_pvalue obj1
                        then compute binom_test (bt obj1)
                               (baseFreqs ! 1 + baseFreqs ! 2 + baseFreqs ! 3) depth
                        else (Inr (None, None), bt obj1));
                     s1 = s\<lparr>scan_obj := obj1\<lparr>bt := bt1\<rparr>\<rparr>
                 in case pm of
                      Inl e \<Rightarrow> Raise e s1
                    | Inr (pvalue, mlp) \<Rightarrow>
                        (let maf = (if depth > 0
                                    then Some (real_of_int (baseFreqs ! 1) / real_of_int depth)
                                    else None)
                         in case map_of (psn2roi obj1) (sought_now s) of
                              None \<Rightarrow> Raise KeyError s1
                            | Some names \<Rightarrow>
                                next_sought
                                  (s1\<lparr>resDict := resDict s1 @
                                       map (\<lambda>name. new_row name pos ref depth baseCounts maf mlp)
                                         (filter (\<lambda>name. report_base maf (report_minimum_maf obj1))
                                            names)\<rparr>)))))"

text \<open>
  One pass of the loop body, lines 365 to 484. An empty line makes \<^verbatim>\<open>line[0]\<close> raise
  IndexError.
\<close>

definition scan_line ::
  "(int \<Rightarrow> int \<Rightarrow> real \<Rightarrow> real) \<Rightarrow> string \<Rightarrow> scan_state \<Rightarrow> scan_state flow option" where
  "scan_line binom_test line s =
     (case line of
        [] \<Rightarrow> Some (Raise IndexError s)
      | c # _ \<Rightarrow>
          if c = CHR ''#'' then Some (Next s)
          else if str_contains ''INDEL'' line then Some (Next s)
          else
            (let cols = split_ws line
             in if length cols \<noteq> 10 then Some (Raise ValueError s)
                else (case py_int (cols ! 1) of
                        None \<Rightarrow> Some (Raise ValueError s)
                      | Some pos \<Rightarrow>
                          (case catch_up_gap pos s of
                             None \<Rightarrow> None
                           | Some s1 \<Rightarrow>
                               if pos = sought_now s1
                               then Some (matched binom_test pos (cols ! 3) (cols ! 4) (cols ! 7)
                                            (cols ! 8) (cols ! 9) s1)
                               else Some (Next s1)))))"

text \<open>
  A variant file: its lines, and whether the compressed stream ends before its end
  marker, in which case reading past the last line raises EOFError.
\<close>

record vcf_file =
  file_lines :: "string list"
  truncated :: bool

fun scan_lines ::
  "(int \<Rightarrow> int \<Rightarrow> real \<Rightarrow> real) \<Rightarrow> string list \<Rightarrow> bool \<Rightarrow> scan_state \<Rightarrow> scan_state flow option" where
  "scan_lines binom_test [] trunc s = Some (if trunc then Raise EOFError s else Next s)"
| "scan_lines binom_test (line # rest) trunc s =
     (case scan_line binom_test line s of
        None \<Rightarrow> None
      | Some (Next s1) \<Rightarrow> scan_lines binom_test rest trunc s1
      | Some r \<Rightarrow> Some r)"

text \<open>
  What a call leaves: the value returned or the exception raised, the object, and the
  number of gap warnings logged.
\<close>

record parse_result =
  returned :: "pyerr + pyval"
  scanner :: vcfScan
  warnings_logged :: nat

definition finish_parse :: "scan_state \<Rightarrow> parse_result" where
  "finish_parse s =
     \<lparr>returned = Inr (PyBool True),
      scanner = (scan_obj s)\<lparr>bases := Some (resDict s)\<rparr>,
      warnings_logged = gap_warnings s\<rparr>"

text \<open>
  \<^verbatim>\<open>_parse\<close>, lines 341 to 491 and the return. IndexError ends the scan quietly,
  wherever it was raised; EOFError returns False and leaves \<^verbatim>\<open>self.bases\<close> None.
  The summary by region that follows the scan is not modelled.
\<close>

definition priv_parse ::
  "(int \<Rightarrow> int \<Rightarrow> real \<Rightarrow> real) \<Rightarrow> vcfScan \<Rightarrow> vcf_file \<Rightarrow> parse_result option" where
  "priv_parse binom_test obj vcffile =
     (let obj0 = obj\<lparr>bases := None\<rparr>;
          s0 = \<lparr>sought_psns = [], sought_now = 0, warning_emitted = False, gap_warnings = 0,
                resDict = [], scan_obj = obj0\<rparr>
      in case sort (map fst (psn2roi obj0)) of
           [] \<Rightarrow> Some (finish_parse s0)
         | p # rest \<Rightarrow>
             (case scan_lines binom_test (file_lines vcffile) (truncated vcffile)
                     (s0\<lparr>sought_now := p, sought_psns := rest\<rparr>) of
                None \<Rightarrow> None
              | Some (Next s) \<Rightarrow> Some (finish_parse s)
              | Some (Break s) \<Rightarrow> Some (finish_parse s)
              | Some (Raise e s) \<Rightarrow>
                  if e = IndexError then Some (finish_parse s)
                  else if e = EOFError then
                    Some \<lparr>returned = Inr (PyBool False), scanner = scan_obj s,
                          warnings_logged = gap_warnings s\<rparr>
                  else Some \<lparr>returned = Inl e, scanner = scan_obj s,
                             warnings_logged = gap_warnings s\<rparr>))"

text \<open>
\<^verbatim>\<open>parse\<close>: sets the guid, calls \<^verbatim>\<open>_parse\<close> and returns nothing.
\<close>

definition parse ::
  "(int \<Rightarrow> int \<Rightarrow> real \<Rightarrow> real) \<Rightarrow> vcfScan \<Rightarrow> vcf_file \<Rightarrow> string option \<Rightarrow> parse_result option" where
  "parse binom_test obj vcffile g =
     (case priv_parse binom_test (obj\<lparr>guid := g\<rparr>) vcffile of
        None \<Rightarrow> None
      | Some r \<Rightarrow>
          Some (case returned r of
                  Inl e \<Rightarrow> r
                | Inr v \<Rightarrow> r\<lparr>returned := Inr PyNone\<rparr>))"

text \<open>
  Predicates on lines. A line is skipped when it is a comment or contains INDEL. A line is
  a record when it has ten columns and an integer position. A line is absent from the
  sought positions when it is skipped, or a record at a position below
  \<open>unreachable_psn\<close> that no region holds.
\<close>

definition skipped :: "string \<Rightarrow> bool" where
  "skipped line = (case line of [] \<Rightarrow> False | c # _ \<Rightarrow> c = CHR ''#'' \<or> str_contains ''INDEL'' line)"

definition record_psn :: "string \<Rightarrow> int option" where
  "record_psn line =
     (if line = [] \<or> length (split_ws line) \<noteq> 10 then None else py_int (split_ws line ! 1))"

definition absent_line :: "vcfScan \<Rightarrow> string \<Rightarrow> bool" where
  "absent_line obj line =
     (skipped line \<or>
      (case record_psn line of
         None \<Rightarrow> False
       | Some p \<Rightarrow> p < unreachable_psn \<and> p \<notin> fst ` set (psn2roi obj)))"


definition gap_inv :: "vcfScan \<Rightarrow> scan_state \<Rightarrow> bool" where
  "gap_inv obj s =
     ((sought_now s \<in> fst ` set (psn2roi obj) \<or> sought_now s = unreachable_psn)
      \<and> set (sought_psns s) \<subseteq> fst ` set (psn2roi obj)
      \<and> resDict s = [])"

section \<open>lineageScan: f_statistics\<close>

text \<open>
One row of \<^verbatim>\<open>self.region_stats\<close>.
\<close>

record region_summary =
  region :: string
  mean_depth :: real
  min_depth :: int
  max_depth :: int
  start_psn :: int
  stop_psn :: int
  n_called :: nat
  mean_maf :: "real option"
  total_depth :: int
  total_nonmajor_depth :: int

record f_stats =
  mixture_quality :: string
  F2 :: "real option"
  F47 :: "real option"

text \<open>
  \<^verbatim>\<open>sort_values(by='mean_maf', ascending=False)\<close> is a function of the library, the
  parameter \<open>sort_values\<close> of \<open>f_statistics\<close>. What is known of its result is
  \<open>sorted_by_mean_maf\<close>: it holds the rows of the table, each as often as the table,
  in descending order of mean maf with the rows without a value last. The order among
  rows of equal mean maf is that of the sorting algorithm of the library and is left open.
\<close>

fun maf_ge :: "real option \<Rightarrow> real option \<Rightarrow> bool" where
  "maf_ge _ None = True"
| "maf_ge None (Some _) = False"
| "maf_ge (Some a) (Some b) = (b \<le> a)"

definition sorted_by_mean_maf :: "region_summary list \<Rightarrow> region_summary list \<Rightarrow> bool" where
  "sorted_by_mean_maf rows sorted_rows =
     (mset sorted_rows = mset rows
      \<and> sorted_wrt (\<lambda>a b. maf_ge (mean_maf a) (mean_maf b)) sorted_rows)"

text \<open>
\<^verbatim>\<open>head(n)\<close> and \<^verbatim>\<open>tail(n)\<close> of a data frame.
\<close>

definition head :: "nat \<Rightarrow> 'a list \<Rightarrow> 'a list" where
  "head n rows = take n rows"

definition tail :: "nat \<Rightarrow> 'a list \<Rightarrow> 'a list" where
  "tail n rows = drop (length rows - n) rows"

text \<open>
  \<^verbatim>\<open>f_statistics\<close> on \<^verbatim>\<open>self.region_stats\<close> (no file name given). Without region
  statistics the method returns None.
\<close>

definition f_statistics ::
  "(region_summary list \<Rightarrow> region_summary list) \<Rightarrow> region_summary list option
     \<Rightarrow> f_stats option" where
  "f_statistics sort_values region_stats =
     (case region_stats of
        None \<Rightarrow> None
      | Some rows \<Rightarrow>
          if length rows < 58
          then Some \<lparr>mixture_quality = ''bad'', F2 = None, F47 = None\<rparr>
          else
            (let sorted_region_stats = sort_values rows;
                 f2_denominator = sum_list (map total_depth (head 2 sorted_region_stats));
                 f47_denominator = sum_list (map total_depth (tail 47 sorted_region_stats))
             in if f2_denominator = 0 \<or> f47_denominator = 0
                then Some \<lparr>mixture_quality = ''bad'', F2 = None, F47 = None\<rparr>
                else
                  Some \<lparr>mixture_quality = ''OK'',
                        F2 = Some (real_of_int
                                     (sum_list (map total_nonmajor_depth (head 2 sorted_region_stats)))
                                   / real_of_int f2_denominator),
                        F47 = Some (real_of_int
                                      (sum_list (map total_nonmajor_depth (tail 47 sorted_region_stats)))
                                    / real_of_int f47_denominator)\<rparr>))"

text \<open>
  A summary as the scan builds it: the depth that is not of the most common base lies
  between 0 and the total depth.
\<close>

definition summary_ok :: "region_summary \<Rightarrow> bool" where
  "summary_ok r = (0 \<le> total_nonmajor_depth r \<and> total_nonmajor_depth r \<le> total_depth r)"

section \<open>FastaMixtureMarker\<close>

text \<open>
  A row of the table of mixed bases: the columns of \<^verbatim>\<open>self.bases\<close> after the scan
  has added \<^verbatim>\<open>most_common\<close> and \<^verbatim>\<open>nonmajor\<close>.
\<close>

record mixed_row = base_row +
  most_common :: int
  nonmajor :: int

record FastaMixtureMarker =
  mlp_cutoff :: real
  min_maf :: real
  clustering_cutoff :: "int option"
  marker_bt :: BinomialTest

definition FastaMixtureMarker_init ::
  "pyval \<Rightarrow> real \<Rightarrow> int option \<Rightarrow> real \<Rightarrow> pyerr + FastaMixtureMarker" where
  "FastaMixtureMarker_init expected_error_rate cutoff clustering minimum_maf =
     (case BinomialTest_init expected_error_rate of
        Inl e \<Rightarrow> Inl e
      | Inr b \<Rightarrow>
          Inr \<lparr>mlp_cutoff = cutoff, min_maf = minimum_maf, clustering_cutoff = clustering,
               marker_bt = b\<rparr>)"

definition iupac :: "(string \<times> char) list" where
  "iupac =
     [(''AG'', CHR ''r''), (''GA'', CHR ''R''),
      (''AT'', CHR ''w''), (''TA'', CHR ''W''),
      (''CT'', CHR ''y''), (''TC'', CHR ''Y''),
      (''AC'', CHR ''m''), (''CA'', CHR ''M''),
      (''CG'', CHR ''s''), (''GC'', CHR ''S''),
      (''GT'', CHR ''k''), (''TG'', CHR ''K'')]"

text \<open>
  The two bases of highest depth, in that order. Among bases of equal depth the order is
  that of the sorting algorithm of the library; the model takes them in the order
  A, C, G, T, and no property below depends on the order among equal depths.
\<close>

definition top2 :: "mixed_row \<Rightarrow> string" where
  "top2 row =
     map fst (take 2 (sort_key (\<lambda>(b, d). - d)
        [(CHR ''A'', col_base_a row), (CHR ''C'', col_base_c row),
         (CHR ''G'', col_base_g row), (CHR ''T'', col_base_t row)]))"

text \<open>
  The body of the loop over the table, lines 102 to 122: the row is passed over, or its
  position, less one, gets a code. A maf or mlp that is NaN is \<open>None\<close>.
\<close>

datatype row_action = Skip | Update int char

definition mark_row ::
  "(int \<Rightarrow> int \<Rightarrow> real \<Rightarrow> real) \<Rightarrow> FastaMixtureMarker \<Rightarrow> BinomialTest \<Rightarrow> mixed_row
     \<Rightarrow> (pyerr + row_action) \<times> BinomialTest" where
  "mark_row binom_test marker b row =
     (case col_maf row of
        None \<Rightarrow> (Inr Skip, b)
      | Some maf \<Rightarrow>
          if maf \<ge> min_maf marker then
            (let (r, b1) =
                   (case col_mlp row of
                      Some m \<Rightarrow> (Inr (Some m), b)
                    | None \<Rightarrow>
                        (case compute binom_test b (nonmajor row) (col_depth row) of
                           (Inl e, b') \<Rightarrow> (Inl e, b')
                         | (Inr (p_value, m), b') \<Rightarrow> (Inr m, b')))
             in case r of
                  Inl e \<Rightarrow> (Inl e, b1)
                | Inr None \<Rightarrow> (Inl TypeError, b1)
                | Inr (Some mlp) \<Rightarrow>
                    if mlp \<ge> mlp_cutoff marker then
                      (case map_of iupac (top2 row) of
                         None \<Rightarrow> (Inl KeyError, b1)
                       | Some code \<Rightarrow> (Inr (Update (col_pos row - 1) code), b1))
                    else (Inr Skip, b1))
          else (Inr Skip, b))"

text \<open>
  The loop over the table. A position that occurs twice in the index makes
  \<^verbatim>\<open>df.loc[ix, 'maf']\<close> a series, and the comparison raises ValueError.
\<close>

fun collect_variants ::
  "(int \<Rightarrow> int \<Rightarrow> real \<Rightarrow> real) \<Rightarrow> FastaMixtureMarker \<Rightarrow> int list \<Rightarrow> mixed_row list
     \<Rightarrow> BinomialTest \<Rightarrow> (int \<times> char) list \<Rightarrow> (pyerr + (int \<times> char) list) \<times> BinomialTest" where
  "collect_variants binom_test marker index [] b variants_to_update =
     (Inr variants_to_update, b)"
| "collect_variants binom_test marker index (row # rest) b variants_to_update =
     (if count_list index (col_pos row) > 1 then (Inl ValueError, b)
      else case mark_row binom_test marker b row of
             (Inl e, b1) \<Rightarrow> (Inl e, b1)
           | (Inr Skip, b1) \<Rightarrow>
               collect_variants binom_test marker index rest b1 variants_to_update
           | (Inr (Update k code), b1) \<Rightarrow>
               collect_variants binom_test marker index rest b1
                 (dict_set variants_to_update k code))"

text \<open>
  Lines 126 to 131, for \<^verbatim>\<open>i in range(1, len(bases) - 1)\<close>; \<open>base_psns\<close> is the
  variable \<^verbatim>\<open>bases\<close>, the sorted keys.
\<close>

fun suppress_clustered ::
  "int \<Rightarrow> int list \<Rightarrow> nat list \<Rightarrow> (int \<times> char) list \<Rightarrow> (int \<times> char) list" where
  "suppress_clustered cutoff base_psns [] variants_to_update = variants_to_update"
| "suppress_clustered cutoff base_psns (i # rest) variants_to_update =
     (let v1 = (if base_psns ! i - base_psns ! (i - 1) \<le> cutoff
                then dict_set variants_to_update (base_psns ! i) CHR ''N''
                else variants_to_update);
          v2 = (if base_psns ! (i + 1) - base_psns ! i \<le> cutoff
                then dict_set v1 (base_psns ! i) CHR ''N''
                else v1)
      in suppress_clustered cutoff base_psns rest v2)"

text \<open>
Lines 133 to 134.
\<close>

fun write_bases ::
  "int list \<Rightarrow> nat list \<Rightarrow> (int \<times> char) list \<Rightarrow> string \<Rightarrow> pyerr + string" where
  "write_bases base_psns [] variants_to_update seq = Inr seq"
| "write_bases base_psns (i # rest) variants_to_update seq =
     (case map_of variants_to_update (base_psns ! i) of
        None \<Rightarrow> Inl KeyError
      | Some code \<Rightarrow>
          (case list_set seq (base_psns ! i) code of
             Inl e \<Rightarrow> Inl e
           | Inr seq1 \<Rightarrow> write_bases base_psns rest variants_to_update seq1))"

definition interior :: "'a list \<Rightarrow> nat list" where
  "interior base_psns = [1..<length base_psns - 1]"

text \<open>
Lines 136 to 140: the rows returned.
\<close>

definition accepted :: "(int \<times> char) list \<Rightarrow> (int \<times> char) list" where
  "accepted variants = filter (\<lambda>(pos, base). base \<noteq> CHR ''N'' \<and> pos > 0) variants"

text \<open>
Lines 125 to 141, and the method on a sequence and a table already read.
\<close>

definition annotate ::
  "int option \<Rightarrow> (int \<times> char) list \<Rightarrow> string \<Rightarrow> pyerr + (int \<times> char) list \<times> string" where
  "annotate clustering variants_to_update seq =
     (let base_psns = sort (map fst variants_to_update);
          v1 = (case clustering of
                  None \<Rightarrow> variants_to_update
                | Some cutoff \<Rightarrow> suppress_clustered cutoff base_psns (interior base_psns) variants_to_update)
      in case write_bases base_psns (interior base_psns) v1 seq of
           Inl e \<Rightarrow> Inl e
         | Inr seq1 \<Rightarrow> Inr (accepted v1, seq1))"

definition mark_mixed ::
  "(int \<Rightarrow> int \<Rightarrow> real \<Rightarrow> real) \<Rightarrow> FastaMixtureMarker \<Rightarrow> string \<Rightarrow> mixed_row list
     \<Rightarrow> (pyerr + (int \<times> char) list \<times> string) \<times> FastaMixtureMarker" where
  "mark_mixed binom_test marker seq df =
     (case collect_variants binom_test marker (map col_pos df) df (marker_bt marker) [] of
        (Inl e, b) \<Rightarrow> (Inl e, marker\<lparr>marker_bt := b\<rparr>)
      | (Inr variants_to_update, b) \<Rightarrow>
          (annotate (clustering_cutoff marker) variants_to_update seq, marker\<lparr>marker_bt := b\<rparr>))"

section \<open>Example inputs\<close>

text \<open>
  A tester as \<^verbatim>\<open>BinomialTest(0.001)\<close> builds it, a scanner as \<^verbatim>\<open>vcfScan()\<close> builds
  it, and the scanner after \<^verbatim>\<open>add_roi('One', [1, 2, 3])\<close> and
  \<^verbatim>\<open>add_roi('Two', [2, 3, 4])\<close>. \<open>B0\<close> stands for a test that always gives 1/2.
\<close>

definition bt0 :: BinomialTest where
  "bt0 = \<lparr>expectedErrorRate = 1 / 1000, p_values = Map.empty, tests_run = 0\<rparr>"

definition scan0 :: vcfScan where
  "scan0 = \<lparr>roi2psn = Map.empty, psn2roi = [], infotag = Some ''BaseCounts4'', fieldtag = None,
            report_minimum_maf = 0, compute_pvalue = True,
            bt = \<lparr>expectedErrorRate = 1 / 1000, p_values = Map.empty, tests_run = 0\<rparr>,
            guid = None, bases = None\<rparr>"

definition scan1 :: vcfScan where
  "scan1 = snd (add_roi ''Two'' [2, 3, 4] (snd (add_roi ''One'' [1, 2, 3] scan0)))"

definition B0 :: "int \<Rightarrow> int \<Rightarrow> real \<Rightarrow> real" where "B0 x n p = 1/2"

text \<open>
Lines of a variant file, and three files.
\<close>

definition tab :: char where "tab = char_of (9::nat)"

definition nl :: char where "nl = char_of (10::nat)"

definition vcf_line :: "string \<Rightarrow> string \<Rightarrow> string \<Rightarrow> string \<Rightarrow> string" where
  "vcf_line chrom pos ref info =
     chrom @ [tab] @ pos @ [tab] @ ''.'' @ [tab] @ ref @ [tab] @ ''.'' @ [tab] @ ''50''
       @ [tab] @ ''PASS'' @ [tab] @ info @ [tab] @ ''GT'' @ [tab] @ ''0/0'' @ [nl]"

definition header_line :: string where
  "header_line = ''##fileformat=VCFv4.2'' @ [nl]"

definition st1 :: scan_state where
  "st1 = \<lparr>sought_psns = [2, 3, 4], sought_now = 1, warning_emitted = False, gap_warnings = 0,
          resDict = [], scan_obj = scan1\<lparr>bases := None\<rparr>\<rparr>"

definition file_gaps :: vcf_file where
  "file_gaps =
     \<lparr>file_lines = [header_line,
                    vcf_line ''chr1'' ''7'' ''A'' ''BaseCounts4=8,2,0,0'',
                    vcf_line ''chr1'' ''9'' ''C'' ''BaseCounts4=0,9,1,0''],
      truncated = False\<rparr>"


definition file_cut :: vcf_file where
  "file_cut =
     \<lparr>file_lines = [header_line,
                    vcf_line ''chr1'' ''1'' ''A'' ''BaseCounts4=8,2,0,0''],
      truncated = True\<rparr>"

text \<open>
  A sort for the examples: insertion, by which rows of equal mean maf keep the order of
  the table. It is one of the functions that \<open>sorted_by_mean_maf\<close> admits.
\<close>

fun insert_by_maf :: "region_summary \<Rightarrow> region_summary list \<Rightarrow> region_summary list" where
  "insert_by_maf r [] = [r]"
| "insert_by_maf r (x # xs) =
     (if maf_ge (mean_maf r) (mean_maf x) then r # x # xs else x # insert_by_maf r xs)"

definition insertion_sort_mean_maf :: "region_summary list \<Rightarrow> region_summary list" where
  "insertion_sort_mean_maf rows = foldr insert_by_maf rows []"

text \<open>
  Region summaries that are not in order (the first has the lowest mean maf, the last the
  highest), a marker, a sequence and two tables of mixed bases.
\<close>

definition summary_row :: "nat \<Rightarrow> region_summary" where
  "summary_row i =
     \<lparr>region = ''lineage'', mean_depth = 10, min_depth = 10, max_depth = 10,
      start_psn = int i + 1, stop_psn = int i + 1, n_called = 1,
      mean_maf = Some (real (if i = 0 then 1 else if i = 57 then 58 else 58 - i) / 100),
      total_depth = 10, total_nonmajor_depth = int (i mod 10)\<rparr>"

definition rows58 :: "region_summary list" where
  "rows58 = map summary_row [0..<58]"

definition mixed :: "int \<Rightarrow> int \<Rightarrow> int \<Rightarrow> int \<Rightarrow> int \<Rightarrow> mixed_row" where
  "mixed pos a c g t =
     \<lparr>col_roi_name = ''r'', col_pos = pos, col_ref = ''A'', col_depth = a + c + g + t,
      col_base_a = a, col_base_c = c, col_base_g = g, col_base_t = t,
      col_maf = Some (1 / 4), col_mlp = Some 10,
      most_common = max (max a c) (max g t),
      nonmajor = a + c + g + t - max (max a c) (max g t)\<rparr>"

definition marker0 :: FastaMixtureMarker where
  "marker0 = \<lparr>mlp_cutoff = 665 / 100, min_maf = 0, clustering_cutoff = Some 2, marker_bt = bt0\<rparr>"

definition seq10 :: string where
  "seq10 = ''ACGTACGTAC''"

definition df4 :: "mixed_row list" where
  "df4 = [mixed 2 30 0 10 0, mixed 5 0 30 0 10, mixed 8 10 0 30 0, mixed 10 0 10 30 0]"

definition df2 :: "mixed_row list" where
  "df2 = [mixed 3 30 0 10 0, mixed 5 10 0 30 0]"

section \<open>Properties of BinomialTest\<close>

subsection \<open>The cache key determines the pair\<close>













subsection \<open>compute\<close>

lemma cache_ok_init: "BinomialTest_init v = Inr self \<Longrightarrow> cache_ok binom_test self"
  by (cases v) (auto simp: cache_ok_def)












subsection \<open>The constructor\<close>

text \<open>
  C9, as the code has it. The constructor raises TypeError exactly when the expected
  error rate is not a float, and every float is accepted and stored, with an empty cache.
\<close>

theorem BinomialTest_init_float_only:
  "(BinomialTest_init v = Inl TypeError) = (\<forall>r. v \<noteq> PyFloat r)
   \<and> (BinomialTest_init (PyFloat r) = Inr \<lparr>expectedErrorRate = r, p_values = Map.empty, tests_run = 0\<rparr>)"
  by (cases v) auto

text \<open>
The float 2.0 is outside the interval (0,1) and the constructor accepts it.
\<close>

theorem BinomialTest_init_out_of_range:
  "(2::real) \<notin> {0<..<1}
   \<and> BinomialTest_init (PyFloat 2) = Inr \<lparr>expectedErrorRate = 2, p_values = Map.empty, tests_run = 0\<rparr>"
  by simp

section \<open>Properties of the region index\<close>

lemma scan0_init: "vcfScan_init (PyFloat (1/1000)) (Some ''BaseCounts4'') 0 True = Inr scan0"
  by (simp add: vcfScan_init_def scan0_def)

text \<open>
  C5. Adding region A with position 1 and then region A again with position 2: both calls
  return, the second call has replaced the position set of A by \<open>{2}\<close>, position 1
  still names A, and the index is not consistent.
\<close>

theorem add_roi_readd_inconsistent:
  "fst (add_roi ''A'' [1] scan0) = None
   \<and> fst (add_roi ''A'' [2] (snd (add_roi ''A'' [1] scan0))) = None
   \<and> roi2psn (snd (add_roi ''A'' [2] (snd (add_roi ''A'' [1] scan0)))) ''A'' = Some {2}
   \<and> map_of (psn2roi (snd (add_roi ''A'' [2] (snd (add_roi ''A'' [1] scan0))))) 1 = Some [''A'']
   \<and> \<not> index_consistent (snd (add_roi ''A'' [2] (snd (add_roi ''A'' [1] scan0))))"
proof -
  let ?s = "snd (add_roi ''A'' [2] (snd (add_roi ''A'' [1] scan0)))"
  have a: "fst (add_roi ''A'' [1] scan0) = None"
    by (simp add: add_roi_def scan0_def)
  have b: "fst (add_roi ''A'' [2] (snd (add_roi ''A'' [1] scan0))) = None"
    by (simp add: add_roi_def scan0_def)
  have c: "roi2psn ?s ''A'' = Some {2}"
    by (simp add: add_roi_def scan0_def)
  have d: "map_of (psn2roi ?s) 1 = Some [''A'']"
    by (simp add: add_roi_def scan0_def set_add_def)
  have "\<not> index_consistent ?s"
  proof
    assume "index_consistent ?s"
    then have "(\<exists>psns. roi2psn ?s ''A'' = Some psns \<and> 1 \<in> psns)
          = (\<exists>names. map_of (psn2roi ?s) 1 = Some names \<and> ''A'' \<in> set names)"
      unfolding index_consistent_def by blast
    with c d show False by simp
  qed
  with a b c d show ?thesis by blast
qed

lemma add_roi_positions_zero:
  assumes "0 \<in> set ps" "roi2psn self roi_name \<noteq> None"
  shows "add_roi_positions roi_name ps self
           = (Some ValueError, snd (add_roi_positions roi_name (takeWhile (\<lambda>p. p \<noteq> 0) ps) self))
       \<and> fst (add_roi_positions roi_name (takeWhile (\<lambda>p. p \<noteq> 0) ps) self) = None"
  using assms
proof (induction ps arbitrary: self)
  case Nil
  then show ?case by simp
next
  case (Cons p ps)
  show ?case
  proof (cases "p = 0")
    case True
    then show ?thesis by simp
  next
    case False
    from Cons.prems(2) obtain psns where ps: "roi2psn self roi_name = Some psns" by auto
    let ?self' = "self\<lparr>roi2psn := (roi2psn self)(roi_name \<mapsto> insert p psns),
                       psn2roi :=
                         (case map_of (psn2roi self) p of
                            Some names \<Rightarrow>
                              dict_set (psn2roi self) p (set_add roi_name names)
                          | None \<Rightarrow> dict_set (psn2roi self) p [roi_name])\<rparr>"
    have "0 \<in> set ps" using Cons.prems(1) False by simp
    moreover have "roi2psn ?self' roi_name \<noteq> None" by simp
    ultimately have IH: "add_roi_positions roi_name ps ?self'
           = (Some ValueError, snd (add_roi_positions roi_name (takeWhile (\<lambda>p. p \<noteq> 0) ps) ?self'))
       \<and> fst (add_roi_positions roi_name (takeWhile (\<lambda>p. p \<noteq> 0) ps) ?self') = None"
      by (rule Cons.IH)
    with False ps show ?thesis by simp
  qed
qed

text \<open>
  C7, as the code has it. A call whose positions contain 0 raises ValueError, and the
  object is then as a call with the positions before the first 0 leaves it, a call that
  returns: nothing at or after the first 0 is stored.
\<close>

theorem add_roi_zero:
  assumes "0 \<in> set roi_positions"
  shows "add_roi roi_name roi_positions self
           = (Some ValueError, snd (add_roi roi_name (takeWhile (\<lambda>p. p \<noteq> 0) roi_positions) self))
       \<and> fst (add_roi roi_name (takeWhile (\<lambda>p. p \<noteq> 0) roi_positions) self) = None"
  unfolding add_roi_def
  by (rule add_roi_positions_zero [OF assms]) simp

text \<open>
The theorem at the positions 1, 0, 2: the object is as after adding position 1 alone.
\<close>

theorem add_roi_zero_witness:
  "(0::int) \<in> set [1, 0, 2]
   \<and> fst (add_roi ''A'' [1, 0, 2] scan0) = Some ValueError
   \<and> snd (add_roi ''A'' [1, 0, 2] scan0) = snd (add_roi ''A'' [1] scan0)"
  using add_roi_zero [of "[1, 0, 2]" "''A''" scan0] by simp

text \<open>
  The index is updated by a failing call: position 1 precedes the 0 and is stored in both
  dictionaries before ValueError is raised.
\<close>

theorem add_roi_zero_partial_update:
  "fst (add_roi ''A'' [1, 0] scan0) = Some ValueError
   \<and> psn2roi (snd (add_roi ''A'' [1, 0] scan0)) = [(1, [''A''])]
   \<and> roi2psn (snd (add_roi ''A'' [1, 0] scan0)) ''A'' = Some {1}
   \<and> psn2roi scan0 = [] \<and> roi2psn scan0 ''A'' = None"
  by (simp add: add_roi_def scan0_def)

section \<open>Properties of the scan\<close>

subsection \<open>Catching up\<close>



lemma catch_up_returns:
  "pos < unreachable_psn \<Longrightarrow> now \<le> pos \<Longrightarrow> catch_up pos now psns = Some (after_gap pos psns)"
proof (induction psns arbitrary: now)
  case Nil
  then show ?case
    by (subst catch_up.simps, simp, subst catch_up.simps) (simp add: after_gap_def)
next
  case (Cons p rest)
  show ?case
  proof (cases "p \<le> pos")
    case True
    with Cons show ?thesis
      by (subst catch_up.simps) (simp add: after_gap_def)
  next
    case False
    with Cons.prems show ?thesis
      by (subst catch_up.simps, simp, subst catch_up.simps) (simp add: after_gap_def)
  qed
qed

lemma after_gap_props:
  assumes "pos < unreachable_psn"
  shows "pos < fst (after_gap pos psns)"
    and "fst (after_gap pos psns) \<in> set psns \<or> fst (after_gap pos psns) = unreachable_psn"
    and "set (snd (after_gap pos psns)) \<subseteq> set psns"
proof -
  show "pos < fst (after_gap pos psns)"
  proof (cases "dropWhile (\<lambda>p. p \<le> pos) psns")
    case Nil
    show ?thesis unfolding after_gap_def Nil using assms by simp
  next
    case (Cons p rest)
    then have "\<not> p \<le> pos" using hd_dropWhile [of "\<lambda>p. p \<le> pos" psns] by simp
    then show ?thesis unfolding after_gap_def Cons by simp
  qed
  show "fst (after_gap pos psns) \<in> set psns \<or> fst (after_gap pos psns) = unreachable_psn"
  proof (cases "dropWhile (\<lambda>p. p \<le> pos) psns")
    case Nil
    show ?thesis unfolding after_gap_def Nil by simp
  next
    case (Cons p rest)
    then have "p \<in> set (dropWhile (\<lambda>p. p \<le> pos) psns)" by simp
    then have "p \<in> set psns" by (rule set_dropWhileD)
    then show ?thesis unfolding after_gap_def Cons by simp
  qed
  show "set (snd (after_gap pos psns)) \<subseteq> set psns"
  proof (cases "dropWhile (\<lambda>p. p \<le> pos) psns")
    case Nil
    show ?thesis unfolding after_gap_def Nil by simp
  next
    case (Cons p rest)
    then have "set rest \<subseteq> set (dropWhile (\<lambda>p. p \<le> pos) psns)" by auto
    also have "\<dots> \<subseteq> set psns" by (auto dest: set_dropWhileD)
    finally show ?thesis unfolding after_gap_def Cons by simp
  qed
qed

lemma catch_up_gap_returns:
  assumes "pos < unreachable_psn" "sought_now s < pos"
  shows "\<exists>s1. catch_up_gap pos s = Some s1
           \<and> pos < sought_now s1
           \<and> (sought_now s1, sought_psns s1) = after_gap pos (sought_psns s)
           \<and> resDict s1 = resDict s \<and> scan_obj s1 = scan_obj s
           \<and> warning_emitted s1
           \<and> gap_warnings s1 = (if warning_emitted s then gap_warnings s else Suc (gap_warnings s))"
proof -
  have c: "catch_up pos (sought_now s) (sought_psns s) = Some (after_gap pos (sought_psns s))"
    using assms by (intro catch_up_returns) simp_all
  obtain n q where nq: "after_gap pos (sought_psns s) = (n, q)" by (cases "after_gap pos (sought_psns s)")
  have "pos < n" using after_gap_props(1) [OF assms(1), of "sought_psns s"] nq by simp
  with c nq assms(2) show ?thesis
    by (simp add: catch_up_gap_def Let_def)
qed

subsection \<open>The gap warning\<close>







subsection \<open>Skipped lines and absent positions\<close>

lemma skipped_line: "skipped line \<Longrightarrow> scan_line B line s = Some (Next s)"
  by (auto simp: skipped_def scan_line_def split: list.splits)

lemma str_contains_nonempty: "str_contains (c # sub) line \<Longrightarrow> line \<noteq> []"
  by (cases line) auto

lemma indel_skipped: "str_contains ''INDEL'' line \<Longrightarrow> skipped line"
  using str_contains_nonempty [of "CHR ''I''" "''NDEL''" line]
  by (cases line) (simp_all add: skipped_def)

lemma absent_line_step:
  assumes inv: "gap_inv obj s" and ab: "absent_line obj line"
  shows "\<exists>s1. scan_line B line s = Some (Next s1) \<and> gap_inv obj s1"
proof (cases "skipped line")
  case True
  with inv show ?thesis by (simp add: skipped_line)
next
  case False
  with ab obtain p where p: "record_psn line = Some p" "p < unreachable_psn"
      "p \<notin> fst ` set (psn2roi obj)"
    by (auto simp: absent_line_def split: option.splits)
  from p(1) have ne: "line \<noteq> []" and len: "length (split_ws line) = 10"
      and pi: "py_int (split_ws line ! 1) = Some p"
    by (auto simp: record_psn_def split: if_splits)
  from ne obtain c cs where line: "line = c # cs" by (cases line) auto
  from False have ns: "c \<noteq> CHR ''#''" "\<not> str_contains ''INDEL'' line"
    by (simp_all add: skipped_def line)
  have step: "scan_line B line s =
     (case catch_up_gap p s of
        None \<Rightarrow> None
      | Some s1 \<Rightarrow>
          if p = sought_now s1
          then Some (matched B p (split_ws line ! 3) (split_ws line ! 4) (split_ws line ! 7)
                       (split_ws line ! 8) (split_ws line ! 9) s1)
          else Some (Next s1))"
    using ns len pi unfolding scan_line_def Let_def by (simp add: line del: str_contains.simps)
  show ?thesis
  proof (cases "p \<le> sought_now s")
    case True
    then have "catch_up_gap p s = Some s" by (simp add: catch_up_gap_def)
    moreover have "p \<noteq> sought_now s" using inv p(2,3) by (auto simp: gap_inv_def)
    ultimately show ?thesis using step inv by simp
  next
    case False
    then have lt: "sought_now s < p" by simp
    from catch_up_gap_returns [OF p(2) lt] obtain s1 where s1:
      "catch_up_gap p s = Some s1" "p < sought_now s1"
      "(sought_now s1, sought_psns s1) = after_gap p (sought_psns s)" "resDict s1 = resDict s"
      by blast
    from s1(3) have f: "sought_now s1 = fst (after_gap p (sought_psns s))"
      and g: "sought_psns s1 = snd (after_gap p (sought_psns s))"
      by (metis fst_conv, metis snd_conv)
    have "gap_inv obj s1"
      using inv after_gap_props(2,3) [OF p(2), of "sought_psns s"] s1(4) f g
      by (auto simp: gap_inv_def)
    with s1(1,2) step show ?thesis by simp
  qed
qed

lemma absent_lines_scan:
  assumes "gap_inv obj s" "list_all (absent_line obj) ls"
  shows "\<exists>s1. scan_lines B ls False s = Some (Next s1) \<and> gap_inv obj s1"
  using assms
proof (induction ls arbitrary: s)
  case Nil
  then show ?case by simp
next
  case (Cons l ls)
  from Cons.prems have "absent_line obj l" by simp
  from absent_line_step [OF Cons.prems(1) this] obtain s1 where
    s1: "scan_line B l s = Some (Next s1)" "gap_inv obj s1" by blast
  from Cons.prems have "list_all (absent_line obj) ls" by simp
  from Cons.IH [OF s1(2) this] s1(1) show ?case by simp
qed

lemma scan_all_gaps:
  assumes "list_all (absent_line obj) (file_lines f)" "\<not> truncated f"
  shows "\<exists>r. priv_parse B obj f = Some r \<and> returned r = Inr (PyBool True)
            \<and> bases (scanner r) = Some []"
proof (cases "sort (map fst (psn2roi obj))")
  case Nil
  then show ?thesis by (simp add: priv_parse_def finish_parse_def)
next
  case (Cons p rest)
  let ?obj0 = "obj\<lparr>bases := None\<rparr>"
  let ?s0 = "\<lparr>sought_psns = rest, sought_now = p, warning_emitted = False, gap_warnings = 0,
              resDict = [], scan_obj = ?obj0\<rparr>"
  have "set (p # rest) = fst ` set (psn2roi obj)"
    using Cons [symmetric] by simp
  then have inv0: "gap_inv obj ?s0" by (auto simp: gap_inv_def)
  from absent_lines_scan [OF inv0 assms(1)] obtain s1 where
    s1: "scan_lines B (file_lines f) False ?s0 = Some (Next s1)" "gap_inv obj s1" by blast
  with Cons assms(2) show ?thesis
    by (simp add: priv_parse_def finish_parse_def gap_inv_def)
qed

lemma scan_lines_skip:
  assumes "skipped line"
  shows "scan_lines B (pre @ line # post) t s = scan_lines B (pre @ post) t s"
proof (induction pre arbitrary: s)
  case Nil
  show ?case by (simp add: skipped_line [OF assms])
next
  case (Cons l pre)
  show ?case
    by (simp add: Cons.IH split: option.splits flow.splits)
qed

subsection \<open>The example files\<close>

lemma scan1_psn2roi:
  "psn2roi scan1 = [(1, [''One'']), (2, [''One'', ''Two'']), (3, [''One'', ''Two'']), (4, [''Two''])]"
  by (simp add: scan1_def add_roi_def scan0_def set_add_def)

lemma scan1_fields:
  "infotag scan1 = Some ''BaseCounts4''" "fieldtag scan1 = None" "compute_pvalue scan1 = True"
  "report_minimum_maf scan1 = 0" "bt scan1 = bt0"
  by (simp_all add: scan1_def add_roi_def scan0_def bt0_def)

lemmas line_eval = vcf_line_def tab_def nl_def split_ws_def is_space_def py_int_def py_nat_def
  split_on_def is_digit_def digits_val_def

lemma absent_gaps: "list_all (absent_line scan1) (file_lines file_gaps)"
  by (simp add: file_gaps_def absent_line_def skipped_def record_psn_def scan1_psn2roi
        unreachable_psn_def header_line_def line_eval)

lemma extract_counts_line:
  "extract_baseCounts (scan1\<lparr>bases := None\<rparr>) ''A'' ''.'' ''BaseCounts4=8,2,0,0'' ''GT'' ''0/0''
     = (Inr [8, 2, 0, 0], scan1\<lparr>bases := None\<rparr>)"
  by (simp add: extract_baseCounts_def split_on_def autodetect_def scan1_fields counts_from_info_def
     counts_from_sample_def counts_by_allele_def py_int_def py_nat_def is_digit_def digits_val_def)

lemma cache_key_2_10: "cache_key 2 10 = ''2,10''"
  by (simp add: cache_key_def str_int_def str_nat.simps digit_char_def)

lemma scan_record_1:
  "scan_line B0 (vcf_line ''chr1'' ''1'' ''A'' ''BaseCounts4=8,2,0,0'') st1 =
     Some (Next \<lparr>sought_psns = [3, 4], sought_now = 2, warning_emitted = False,
        gap_warnings = 0,
        resDict =
          [\<lparr>col_roi_name = ''One'', col_pos = 1, col_ref = ''A'',
              col_depth = 10, col_base_a = 8, col_base_c = 2,
              col_base_g = 0, col_base_t = 0, col_maf = Some (1 / 5),
              col_mlp = Some (- log 10 (1 / 2))\<rparr>],
        scan_obj = scan1
          \<lparr>bases := None, bt :=
             \<lparr>expectedErrorRate = 1 / 1000, p_values = [''2,10'' \<mapsto> 1 / 2],
                tests_run = Suc 0\<rparr>\<rparr>\<rparr>)"
proof -
  have c: "split_ws (vcf_line ''chr1'' ''1'' ''A'' ''BaseCounts4=8,2,0,0'')
     = [''chr1'', ''1'', ''.'', ''A'', ''.'', ''50'', ''PASS'', ''BaseCounts4=8,2,0,0'', ''GT'', ''0/0'']"
    by (simp add: line_eval)
  have p: "py_int ''1'' = Some 1" by (simp add: line_eval)
  have n: "vcf_line ''chr1'' ''1'' ''A'' ''BaseCounts4=8,2,0,0'' = CHR ''c'' # tl (vcf_line ''chr1'' ''1'' ''A'' ''BaseCounts4=8,2,0,0'')"
    by (simp add: vcf_line_def)
  have i: "\<not> str_contains ''INDEL'' (vcf_line ''chr1'' ''1'' ''A'' ''BaseCounts4=8,2,0,0'')"
    by (simp add: vcf_line_def tab_def nl_def)
  have g: "catch_up_gap 1 st1 = Some st1" by (simp add: catch_up_gap_def st1_def)
  have m: "matched B0 1 ''A'' ''.'' ''BaseCounts4=8,2,0,0'' ''GT'' ''0/0'' st1 = Next \<lparr>sought_psns = [3, 4], sought_now = 2, warning_emitted = False,
        gap_warnings = 0,
        resDict =
          [\<lparr>col_roi_name = ''One'', col_pos = 1, col_ref = ''A'',
              col_depth = 10, col_base_a = 8, col_base_c = 2,
              col_base_g = 0, col_base_t = 0, col_maf = Some (1 / 5),
              col_mlp = Some (- log 10 (1 / 2))\<rparr>],
        scan_obj = scan1
          \<lparr>bases := None, bt :=
             \<lparr>expectedErrorRate = 1 / 1000, p_values = [''2,10'' \<mapsto> 1 / 2],
                tests_run = Suc 0\<rparr>\<rparr>\<rparr>"
    by (simp add: matched_def st1_def extract_counts_line scan1_fields scan1_psn2roi Let_def compute_def binom_test_call_def bt0_def
       cache_key_2_10 mlp_of_def B0_def next_sought_def report_base_def new_row_def)
  show ?thesis
    unfolding scan_line_def Let_def c
    by (subst n) (simp add: i p g m del: str_contains.simps, simp add: st1_def)
qed

lemma priv_parse_cut:
  "map_option returned (priv_parse B0 scan1 file_cut) = Some (Inr (PyBool False))"
proof -
  have k: "sort (map fst (psn2roi (scan1\<lparr>bases := None\<rparr>))) = [1, 2, 3, 4]"
    by (simp add: scan1_psn2roi)
  have c: "scan_line B0 header_line st1 = Some (Next st1)"
    by (rule skipped_line) (simp add: skipped_def header_line_def)
  show ?thesis
    unfolding priv_parse_def Let_def k
    by (simp add: file_cut_def st1_def [symmetric] c scan_record_1)
qed

lemma priv_parse_gaps:
  "map_option returned (priv_parse B0 scan1 file_gaps) = Some (Inr (PyBool True))"
  using scan_all_gaps [OF absent_gaps, of B0] by (auto simp: file_gaps_def)

lemma parse_returned:
  "map_option returned (priv_parse B (obj\<lparr>guid := g\<rparr>) f) = Some (Inr v)
     \<Longrightarrow> map_option returned (parse B obj f g) = Some (Inr PyNone)"
  by (auto simp: parse_def split: option.splits sum.splits)

lemma scan1_guid: "scan1\<lparr>guid := None\<rparr> = scan1"
  by (simp add: scan1_def add_roi_def scan0_def)

subsection \<open>Gaps\<close>




subsection \<open>Lines that contain INDEL\<close>

text \<open>
  C10. A line that contains INDEL anywhere changes nothing: scanning the file gives what
  scanning the file without the line gives, for \<^verbatim>\<open>_parse\<close> and for
  \<^verbatim>\<open>parse\<close>, whatever the other lines are.
\<close>

theorem indel_line_skipped:
  assumes "str_contains ''INDEL'' line"
  shows "priv_parse B obj \<lparr>file_lines = pre @ line # post, truncated = t\<rparr>
           = priv_parse B obj \<lparr>file_lines = pre @ post, truncated = t\<rparr>
       \<and> parse B obj \<lparr>file_lines = pre @ line # post, truncated = t\<rparr> g
           = parse B obj \<lparr>file_lines = pre @ post, truncated = t\<rparr> g"
  by (simp add: priv_parse_def parse_def Let_def scan_lines_skip [OF indel_skipped [OF assms]]
        split: list.splits)

text \<open>
  The theorem at a record at the sought position 1 whose chromosome is named chrINDEL:
  the scan is that of the empty file, without rows.
\<close>

theorem indel_line_skipped_witness:
  "str_contains ''INDEL'' (vcf_line ''chrINDEL'' ''1'' ''A'' ''BaseCounts4=8,2,0,0'')
   \<and> priv_parse B0 scan1
        \<lparr>file_lines = [vcf_line ''chrINDEL'' ''1'' ''A'' ''BaseCounts4=8,2,0,0''],
         truncated = False\<rparr>
     = priv_parse B0 scan1 \<lparr>file_lines = [], truncated = False\<rparr>
   \<and> map_option (\<lambda>r. bases (scanner r))
        (priv_parse B0 scan1 \<lparr>file_lines = [], truncated = False\<rparr>) = Some (Some [])"
proof -
  have h: "str_contains ''INDEL'' (vcf_line ''chrINDEL'' ''1'' ''A'' ''BaseCounts4=8,2,0,0'')"
    by (simp add: vcf_line_def tab_def nl_def)
  have e: "map_option (\<lambda>r. bases (scanner r))
        (priv_parse B0 scan1 \<lparr>file_lines = [], truncated = False\<rparr>) = Some (Some [])"
    by (simp add: priv_parse_def scan1_psn2roi Let_def finish_parse_def)
  from indel_line_skipped [OF h, of B0 scan1 "[]" "[]" False] h e show ?thesis by simp
qed

subsection \<open>The value parse returns\<close>

text \<open>
  C6. On a file that is truncated after its first record, \<^verbatim>\<open>_parse\<close> returns False
  and \<^verbatim>\<open>parse\<close> returns None; on a file that is read to its end, \<^verbatim>\<open>_parse\<close>
  returns True and \<^verbatim>\<open>parse\<close> returns None again.
\<close>

theorem parse_returns_None:
  "map_option returned (priv_parse B0 scan1 file_cut) = Some (Inr (PyBool False))
   \<and> map_option returned (parse B0 scan1 file_cut None) = Some (Inr PyNone)
   \<and> map_option returned (priv_parse B0 scan1 file_gaps) = Some (Inr (PyBool True))
   \<and> map_option returned (parse B0 scan1 file_gaps None) = Some (Inr PyNone)"
  using priv_parse_cut priv_parse_gaps
    parse_returned [where B = B0 and obj = scan1 and g = None and f = file_cut]
    parse_returned [where B = B0 and obj = scan1 and g = None and f = file_gaps]
  by (simp add: scan1_guid)

section \<open>Properties of f_statistics\<close>

lemma maf_ge_trans: "maf_ge a b \<Longrightarrow> maf_ge b c \<Longrightarrow> maf_ge a c"
  by (cases a; cases b; cases c) auto

lemma maf_ge_total: "\<not> maf_ge a b \<Longrightarrow> maf_ge b a"
  by (cases a; cases b) auto

lemma sum_range:
  assumes "list_all summary_ok xs"
  shows "0 \<le> sum_list (map total_nonmajor_depth xs)
       \<and> sum_list (map total_nonmajor_depth xs) \<le> sum_list (map total_depth xs)"
  using assms by (induction xs) (auto simp: summary_ok_def)

lemma ratio_range:
  fixes a b :: int
  assumes "0 \<le> a" "a \<le> b" "b \<noteq> 0"
  shows "0 \<le> real_of_int a / real_of_int b \<and> real_of_int a / real_of_int b \<le> 1"
proof -
  from assms have "0 < b" by simp
  with assms show ?thesis by (simp add: divide_le_eq)
qed

lemma sorted_wrt_split:
  assumes "sorted_wrt P xs"
  shows "\<forall>a \<in> set (take k xs). \<forall>b \<in> set (drop k xs). P a b"
proof -
  have "sorted_wrt P (take k xs @ drop k xs)" using assms by simp
  then show ?thesis unfolding sorted_wrt_append by blast
qed

text \<open>
  C8. For region summaries whose depth that is not of the most common base lies between 0
  and the total depth, and any result of sorting them by mean maf, descending: with fewer
  than 58 rows the result is "bad" without scores. With 58 rows or more, the sorted table
  holds the rows of the table; its first 2 rows have a mean maf at least that of every
  later row, and its last 47 rows a mean maf at most that of every earlier row; when the
  total depth of the first 2 or of the last 47 is 0 the result is "bad" without scores;
  otherwise it is "OK", F2 is the depth not of the most common base over the total depth
  for the first 2, F47 is the same for the last 47, and both lie between 0 and 1.
\<close>

theorem f_statistics_spec:
  assumes "list_all summary_ok rows"
    and "sorted_by_mean_maf rows (sort_values rows)"
  shows "(length rows < 58 \<longrightarrow>
            f_statistics sort_values (Some rows)
              = Some \<lparr>mixture_quality = ''bad'', F2 = None, F47 = None\<rparr>)
       \<and> (58 \<le> length rows \<longrightarrow>
            (let sorted_rows = sort_values rows;
                 first2 = take 2 sorted_rows;
                 last47 = drop (length sorted_rows - 47) sorted_rows
             in mset sorted_rows = mset rows
              \<and> length first2 = 2 \<and> length last47 = 47
              \<and> (\<forall>a \<in> set first2. \<forall>b \<in> set (drop 2 sorted_rows).
                    maf_ge (mean_maf a) (mean_maf b))
              \<and> (\<forall>a \<in> set (take (length sorted_rows - 47) sorted_rows). \<forall>b \<in> set last47.
                    maf_ge (mean_maf a) (mean_maf b))
              \<and> (if sum_list (map total_depth first2) = 0
                     \<or> sum_list (map total_depth last47) = 0
                  then f_statistics sort_values (Some rows)
                         = Some \<lparr>mixture_quality = ''bad'', F2 = None, F47 = None\<rparr>
                  else
                    (\<exists>f2 f47.
                       f_statistics sort_values (Some rows)
                         = Some \<lparr>mixture_quality = ''OK'', F2 = Some f2, F47 = Some f47\<rparr>
                       \<and> f2 = real_of_int (sum_list (map total_nonmajor_depth first2))
                                / real_of_int (sum_list (map total_depth first2))
                       \<and> f47 = real_of_int (sum_list (map total_nonmajor_depth last47))
                                / real_of_int (sum_list (map total_depth last47))
                       \<and> 0 \<le> f2 \<and> f2 \<le> 1 \<and> 0 \<le> f47 \<and> f47 \<le> 1))))"
proof (intro conjI impI)
  assume "length rows < 58"
  then show "f_statistics sort_values (Some rows)
               = Some \<lparr>mixture_quality = ''bad'', F2 = None, F47 = None\<rparr>"
    by (simp add: f_statistics_def)
next
  assume len: "58 \<le> length rows"
  let ?sorted = "sort_values rows"
  let ?top = "take 2 ?sorted"
  let ?bottom = "drop (length ?sorted - 47) ?sorted"
  from assms(2) have ms: "mset ?sorted = mset rows"
    and sw: "sorted_wrt (\<lambda>a b. maf_ge (mean_maf a) (mean_maf b)) ?sorted"
    by (simp_all add: sorted_by_mean_maf_def)
  from ms have st: "set ?sorted = set rows" by (rule mset_eq_setD)
  from ms have ln: "length ?sorted = length rows" by (rule mset_eq_length)
  have all: "list_all summary_ok ?sorted"
    using assms(1) by (simp add: list_all_iff st)
  have t: "list_all summary_ok ?top"
    using all by (auto simp: list_all_iff dest: in_set_takeD)
  have b: "list_all summary_ok ?bottom"
    using all by (auto simp: list_all_iff dest: in_set_dropD)
  have lt: "length ?top = 2" using len ln by simp
  have lb: "length ?bottom = 47" using len ln by simp
  have p2: "\<forall>a \<in> set ?top. \<forall>b \<in> set (drop 2 ?sorted). maf_ge (mean_maf a) (mean_maf b)"
    using sorted_wrt_split [OF sw, of 2] .
  have p47: "\<forall>a \<in> set (take (length ?sorted - 47) ?sorted). \<forall>b \<in> set ?bottom.
               maf_ge (mean_maf a) (mean_maf b)"
    using sorted_wrt_split [OF sw, of "length ?sorted - 47"] .
  have res: "if sum_list (map total_depth ?top) = 0 \<or> sum_list (map total_depth ?bottom) = 0
        then f_statistics sort_values (Some rows)
               = Some \<lparr>mixture_quality = ''bad'', F2 = None, F47 = None\<rparr>
        else
          (\<exists>f2 f47.
             f_statistics sort_values (Some rows)
               = Some \<lparr>mixture_quality = ''OK'', F2 = Some f2, F47 = Some f47\<rparr>
             \<and> f2 = real_of_int (sum_list (map total_nonmajor_depth ?top))
                      / real_of_int (sum_list (map total_depth ?top))
             \<and> f47 = real_of_int (sum_list (map total_nonmajor_depth ?bottom))
                      / real_of_int (sum_list (map total_depth ?bottom))
             \<and> 0 \<le> f2 \<and> f2 \<le> 1 \<and> 0 \<le> f47 \<and> f47 \<le> 1)"
  proof (cases "sum_list (map total_depth ?top) = 0 \<or> sum_list (map total_depth ?bottom) = 0")
    case True
    with len show ?thesis
      by (auto simp: f_statistics_def Let_def head_def tail_def)
  next
    case False
    from sum_range [OF t] False
    have r2: "0 \<le> real_of_int (sum_list (map total_nonmajor_depth ?top))
                  / real_of_int (sum_list (map total_depth ?top))
            \<and> real_of_int (sum_list (map total_nonmajor_depth ?top))
                  / real_of_int (sum_list (map total_depth ?top)) \<le> 1"
      by (intro ratio_range) auto
    from sum_range [OF b] False
    have r47: "0 \<le> real_of_int (sum_list (map total_nonmajor_depth ?bottom))
                  / real_of_int (sum_list (map total_depth ?bottom))
            \<and> real_of_int (sum_list (map total_nonmajor_depth ?bottom))
                  / real_of_int (sum_list (map total_depth ?bottom)) \<le> 1"
      by (intro ratio_range) auto
    from False len r2 r47 show ?thesis
      by (simp add: f_statistics_def Let_def head_def tail_def)
  qed
  show "let sorted_rows = sort_values rows;
            first2 = take 2 sorted_rows;
            last47 = drop (length sorted_rows - 47) sorted_rows
        in mset sorted_rows = mset rows
         \<and> length first2 = 2 \<and> length last47 = 47
         \<and> (\<forall>a \<in> set first2. \<forall>b \<in> set (drop 2 sorted_rows).
               maf_ge (mean_maf a) (mean_maf b))
         \<and> (\<forall>a \<in> set (take (length sorted_rows - 47) sorted_rows). \<forall>b \<in> set last47.
               maf_ge (mean_maf a) (mean_maf b))
         \<and> (if sum_list (map total_depth first2) = 0
                \<or> sum_list (map total_depth last47) = 0
             then f_statistics sort_values (Some rows)
                    = Some \<lparr>mixture_quality = ''bad'', F2 = None, F47 = None\<rparr>
             else
               (\<exists>f2 f47.
                  f_statistics sort_values (Some rows)
                    = Some \<lparr>mixture_quality = ''OK'', F2 = Some f2, F47 = Some f47\<rparr>
                  \<and> f2 = real_of_int (sum_list (map total_nonmajor_depth first2))
                           / real_of_int (sum_list (map total_depth first2))
                  \<and> f47 = real_of_int (sum_list (map total_nonmajor_depth last47))
                           / real_of_int (sum_list (map total_depth last47))
                  \<and> 0 \<le> f2 \<and> f2 \<le> 1 \<and> 0 \<le> f47 \<and> f47 \<le> 1))"
    unfolding Let_def using ms lt lb p2 p47 res by blast
qed

subsection \<open>The example sort and the example table\<close>

lemma mset_insert_by_maf: "mset (insert_by_maf r xs) = add_mset r (mset xs)"
  by (induction xs) auto

lemma mset_insertion_sort: "mset (insertion_sort_mean_maf rows) = mset rows"
  by (induction rows) (simp_all add: insertion_sort_mean_maf_def mset_insert_by_maf)

lemma set_insert_by_maf: "set (insert_by_maf r xs) = insert r (set xs)"
  by (induction xs) auto

lemma sorted_insert_by_maf:
  "sorted_wrt (\<lambda>a b. maf_ge (mean_maf a) (mean_maf b)) xs
     \<Longrightarrow> sorted_wrt (\<lambda>a b. maf_ge (mean_maf a) (mean_maf b)) (insert_by_maf r xs)"
proof (induction xs)
  case Nil
  then show ?case by simp
next
  case (Cons x xs)
  show ?case
  proof (cases "maf_ge (mean_maf r) (mean_maf x)")
    case True
    with Cons.prems show ?thesis by (auto intro: maf_ge_trans)
  next
    case False
    with Cons show ?thesis by (auto simp: set_insert_by_maf intro: maf_ge_total)
  qed
qed

lemma sorted_insertion_sort:
  "sorted_wrt (\<lambda>a b. maf_ge (mean_maf a) (mean_maf b)) (insertion_sort_mean_maf rows)"
  by (induction rows) (simp_all add: insertion_sort_mean_maf_def sorted_insert_by_maf)

lemma insertion_sort_sorted_by_mean_maf:
  "sorted_by_mean_maf rows (insertion_sort_mean_maf rows)"
  by (simp add: sorted_by_mean_maf_def mset_insertion_sort sorted_insertion_sort)

lemma rows58_ok: "list_all summary_ok rows58"
  by (simp add: rows58_def list_all_iff summary_ok_def summary_row_def)

lemma rows58_stats:
  "f_statistics insertion_sort_mean_maf (Some rows58)
     = Some \<lparr>mixture_quality = ''OK'', F2 = Some (8 / 20), F47 = Some (201 / 470)\<rparr>"
  by code_simp

lemma rows58_unsorted:
  "\<not> sorted_wrt (\<lambda>a b. maf_ge (mean_maf a) (mean_maf b)) rows58"
proof
  assume "sorted_wrt (\<lambda>a b. maf_ge (mean_maf a) (mean_maf b)) rows58"
  then have "maf_ge (mean_maf (rows58 ! 0)) (mean_maf (rows58 ! 1))"
    by (rule sorted_wrt_nth_less) (simp_all add: rows58_def)
  then show False by (simp add: rows58_def summary_row_def)
qed

lemma if_not_then: "(if c then a else b) \<Longrightarrow> \<not> a \<Longrightarrow> b"
  by (cases c) simp_all

text \<open>
  The theorem at 58 summaries of depth 10 that are not in order, sorted by insertion: the
  result is "OK" with F2 = 8/20, from the last and the second row of the table, and
  F47 = 201/470; with the first 57 of them the result is "bad".
\<close>

theorem f_statistics_spec_witness:
  "list_all summary_ok rows58
   \<and> sorted_by_mean_maf rows58 (insertion_sort_mean_maf rows58)
   \<and> \<not> sorted_wrt (\<lambda>a b. maf_ge (mean_maf a) (mean_maf b)) rows58
   \<and> f_statistics insertion_sort_mean_maf (Some rows58)
       = Some \<lparr>mixture_quality = ''OK'', F2 = Some (8 / 20), F47 = Some (201 / 470)\<rparr>
   \<and> (\<exists>f2 f47.
         f_statistics insertion_sort_mean_maf (Some rows58)
           = Some \<lparr>mixture_quality = ''OK'', F2 = Some f2, F47 = Some f47\<rparr>
         \<and> 0 \<le> f2 \<and> f2 \<le> 1 \<and> 0 \<le> f47 \<and> f47 \<le> 1)
   \<and> f_statistics insertion_sort_mean_maf (Some (take 57 rows58))
       = Some \<lparr>mixture_quality = ''bad'', F2 = None, F47 = None\<rparr>"
proof -
  have l: "length rows58 = 58" by (simp add: rows58_def)
  have ok57: "list_all summary_ok (take 57 rows58)"
    using rows58_ok by (auto simp: list_all_iff dest: in_set_takeD)
  from f_statistics_spec [where sort_values = insertion_sort_mean_maf,
      OF ok57 insertion_sort_sorted_by_mean_maf] l
  have bad: "f_statistics insertion_sort_mean_maf (Some (take 57 rows58))
       = Some \<lparr>mixture_quality = ''bad'', F2 = None, F47 = None\<rparr>" by simp
  have ge: "58 \<le> length rows58" by (simp add: l)
  note spec58 = f_statistics_spec [where sort_values = insertion_sort_mean_maf,
      OF rows58_ok insertion_sort_sorted_by_mean_maf,
      THEN conjunct2, THEN mp, OF ge, unfolded Let_def]
  have nb: "f_statistics insertion_sort_mean_maf (Some rows58)
              \<noteq> Some \<lparr>mixture_quality = ''bad'', F2 = None, F47 = None\<rparr>"
    by (simp add: rows58_stats)
  from spec58 have
    "if sum_list (map total_depth (take 2 (insertion_sort_mean_maf rows58))) = 0
        \<or> sum_list (map total_depth
             (drop (length (insertion_sort_mean_maf rows58) - 47)
                (insertion_sort_mean_maf rows58))) = 0
     then f_statistics insertion_sort_mean_maf (Some rows58)
            = Some \<lparr>mixture_quality = ''bad'', F2 = None, F47 = None\<rparr>
     else
       (\<exists>f2 f47.
          f_statistics insertion_sort_mean_maf (Some rows58)
            = Some \<lparr>mixture_quality = ''OK'', F2 = Some f2, F47 = Some f47\<rparr>
          \<and> f2 = real_of_int (sum_list (map total_nonmajor_depth
                     (take 2 (insertion_sort_mean_maf rows58))))
                   / real_of_int (sum_list (map total_depth
                       (take 2 (insertion_sort_mean_maf rows58))))
          \<and> f47 = real_of_int (sum_list (map total_nonmajor_depth
                      (drop (length (insertion_sort_mean_maf rows58) - 47)
                         (insertion_sort_mean_maf rows58))))
                   / real_of_int (sum_list (map total_depth
                       (drop (length (insertion_sort_mean_maf rows58) - 47)
                          (insertion_sort_mean_maf rows58))))
          \<and> 0 \<le> f2 \<and> f2 \<le> 1 \<and> 0 \<le> f47 \<and> f47 \<le> 1)"
    by blast
  from if_not_then [OF this nb]
  have "\<exists>f2 f47.
         f_statistics insertion_sort_mean_maf (Some rows58)
           = Some \<lparr>mixture_quality = ''OK'', F2 = Some f2, F47 = Some f47\<rparr>
         \<and> 0 \<le> f2 \<and> f2 \<le> 1 \<and> 0 \<le> f47 \<and> f47 \<le> 1"
    by blast
  with rows58_ok insertion_sort_sorted_by_mean_maf rows58_unsorted rows58_stats bad
  show ?thesis by blast
qed

section \<open>Properties of mark_mixed\<close>

lemma map_fst_dict_set:
  "map fst (dict_set d k v) = (if k \<in> fst ` set d then map fst d else map fst d @ [k])"
  by (induction d k v rule: dict_set.induct) auto

lemma distinct_dict_set: "distinct (map fst d) \<Longrightarrow> distinct (map fst (dict_set d k v))"
  by (simp add: map_fst_dict_set)

lemma map_of_dict_set: "map_of (dict_set d k v) = (map_of d)(k \<mapsto> v)"
  by (induction d k v rule: dict_set.induct) (auto simp: fun_eq_iff)

lemma mark_row_update:
  "mark_row B marker b row = (Inr (Update k code), b1) \<Longrightarrow> k = col_pos row - 1"
  by (auto simp: mark_row_def Let_def split: option.splits if_splits prod.splits sum.splits)

lemma collect_variants_keys:
  assumes "collect_variants B marker index df b acc = (Inr variants, b1)"
    and "distinct (map fst acc)" "\<forall>k \<in> fst ` set acc. 0 \<le> k"
    and "list_all (\<lambda>row. 1 \<le> col_pos row) df"
  shows "distinct (map fst variants) \<and> (\<forall>k \<in> fst ` set variants. 0 \<le> k)"
  using assms
proof (induction df arbitrary: b acc)
  case Nil
  then show ?case by simp
next
  case (Cons row rest)
  from Cons.prems(1) have nd: "\<not> count_list index (col_pos row) > 1"
    by (auto split: if_splits)
  obtain r b2 where m: "mark_row B marker b row = (r, b2)" by (cases "mark_row B marker b row")
  from Cons.prems(4) have rest: "list_all (\<lambda>row. 1 \<le> col_pos row) rest" and p: "1 \<le> col_pos row"
    by simp_all
  show ?case
  proof (cases r)
    case (Inl e)
    with Cons.prems(1) nd m show ?thesis by simp
  next
    case (Inr a)
    show ?thesis
    proof (cases a)
      case Skip
      with Cons.prems(1) nd m Inr
      have "collect_variants B marker index rest b2 acc = (Inr variants, b1)" by simp
      from Cons.IH [OF this Cons.prems(2,3) rest] show ?thesis .
    next
      case (Update k code)
      with Cons.prems(1) nd m Inr
      have c: "collect_variants B marker index rest b2 (dict_set acc k code) = (Inr variants, b1)"
        by simp
      from m Inr Update have "k = col_pos row - 1" by (auto dest: mark_row_update)
      with p have k: "0 \<le> k" by simp
      have d: "distinct (map fst (dict_set acc k code))"
        using Cons.prems(2) by (rule distinct_dict_set)
      have "fst ` set (dict_set acc k code) = set (map fst (dict_set acc k code))" by simp
      also have "\<dots> \<subseteq> insert k (fst ` set acc)" by (auto simp: map_fst_dict_set)
      finally have "\<forall>k \<in> fst ` set (dict_set acc k code). 0 \<le> k"
        using Cons.prems(3) k by blast
      from Cons.IH [OF c d this rest] show ?thesis .
    qed
  qed
qed

lemma suppress_clustered_keys:
  assumes "\<forall>i \<in> set is. base_psns ! i \<in> fst ` set variants"
  shows "map fst (suppress_clustered cutoff base_psns is variants) = map fst variants
       \<and> (\<forall>k. k \<notin> (\<lambda>i. base_psns ! i) ` set is \<longrightarrow>
             map_of (suppress_clustered cutoff base_psns is variants) k = map_of variants k)"
  using assms
proof (induction "is" arbitrary: variants)
  case Nil
  then show ?case by simp
next
  case (Cons i rest)
  let ?v1 = "if base_psns ! i - base_psns ! (i - 1) \<le> cutoff
             then dict_set variants (base_psns ! i) CHR ''N'' else variants"
  let ?v2 = "if base_psns ! (i + 1) - base_psns ! i \<le> cutoff
             then dict_set ?v1 (base_psns ! i) CHR ''N'' else ?v1"
  from Cons.prems have ki: "base_psns ! i \<in> fst ` set variants" by simp
  then have k1: "map fst ?v1 = map fst variants" by (simp add: map_fst_dict_set)
  then have "base_psns ! i \<in> fst ` set ?v1" using ki by (metis list.set_map)
  then have k2: "map fst ?v2 = map fst variants" using k1 by (simp add: map_fst_dict_set)
  then have "fst ` set ?v2 = fst ` set variants" by (metis list.set_map)
  with Cons.prems have "\<forall>j \<in> set rest. base_psns ! j \<in> fst ` set ?v2" by simp
  from Cons.IH [OF this]
  have IH: "map fst (suppress_clustered cutoff base_psns rest ?v2) = map fst ?v2"
    "\<And>k. k \<notin> (\<lambda>i. base_psns ! i) ` set rest \<Longrightarrow>
        map_of (suppress_clustered cutoff base_psns rest ?v2) k = map_of ?v2 k"
    by blast+
  have m2: "\<And>k. k \<noteq> base_psns ! i \<Longrightarrow> map_of ?v2 k = map_of variants k"
    by (simp add: map_of_dict_set)
  have e: "suppress_clustered cutoff base_psns (i # rest) variants
             = suppress_clustered cutoff base_psns rest ?v2"
    by (simp add: Let_def)
  show ?case
    unfolding e using IH k2 m2 by auto
qed

lemma list_set_nonneg:
  "list_set xs k v = Inr ys \<Longrightarrow> 0 \<le> k \<Longrightarrow> ys = xs[nat k := v] \<and> nat k < length xs"
  by (auto simp: list_set_def split: if_splits)

lemma write_bases_result:
  assumes "write_bases base_psns is variants seq = Inr out"
    and "\<forall>i \<in> set is. 0 \<le> base_psns ! i"
    and "distinct (map (\<lambda>i. base_psns ! i) is)"
  shows "length out = length seq
       \<and> (\<forall>j < length seq.
            if int j \<in> (\<lambda>i. base_psns ! i) ` set is
            then map_of variants (int j) = Some (out ! j)
            else out ! j = seq ! j)"
  using assms
proof (induction "is" arbitrary: seq)
  case Nil
  then show ?case by simp
next
  case (Cons i rest)
  from Cons.prems(1) obtain code where code: "map_of variants (base_psns ! i) = Some code"
    by (auto split: option.splits)
  with Cons.prems(1) obtain seq1 where
    s1: "list_set seq (base_psns ! i) code = Inr seq1"
    and w: "write_bases base_psns rest variants seq1 = Inr out"
    by (auto split: sum.splits)
  from Cons.prems(2) have nn: "0 \<le> base_psns ! i" by simp
  from list_set_nonneg [OF s1 nn]
  have seq1: "seq1 = seq[nat (base_psns ! i) := code]" and lt: "nat (base_psns ! i) < length seq"
    by simp_all
  from Cons.prems(2,3) have r: "\<forall>i \<in> set rest. 0 \<le> base_psns ! i"
    "distinct (map (\<lambda>i. base_psns ! i) rest)"
    and ni: "base_psns ! i \<notin> (\<lambda>i. base_psns ! i) ` set rest"
    by auto
  from Cons.IH [OF w r]
  have IH: "length out = length seq1"
    "\<And>j. j < length seq1 \<Longrightarrow>
        (if int j \<in> (\<lambda>i. base_psns ! i) ` set rest
         then map_of variants (int j) = Some (out ! j)
         else out ! j = seq1 ! j)"
    by blast+
  have len: "length out = length seq" using IH(1) seq1 by simp
  have "\<forall>j < length seq.
            if int j \<in> (\<lambda>i. base_psns ! i) ` set (i # rest)
            then map_of variants (int j) = Some (out ! j)
            else out ! j = seq ! j"
  proof (intro allI impI)
    fix j assume j: "j < length seq"
    then have j1: "j < length seq1" using seq1 by simp
    show "if int j \<in> (\<lambda>i. base_psns ! i) ` set (i # rest)
            then map_of variants (int j) = Some (out ! j)
            else out ! j = seq ! j"
    proof (cases "int j \<in> (\<lambda>i. base_psns ! i) ` set rest")
      case True
      with IH(2) [OF j1] show ?thesis by simp
    next
      case False
      with IH(2) [OF j1] have o: "out ! j = seq1 ! j" by simp
      show ?thesis
      proof (cases "int j = base_psns ! i")
        case True
        then have "nat (base_psns ! i) = j" by simp
        with o seq1 j have "out ! j = code" by simp
        with True code show ?thesis by simp
      next
        case ne: False
        then have "nat (base_psns ! i) \<noteq> j" using nn by auto
        with o seq1 have "out ! j = seq ! j" by simp
        with False ne show ?thesis by simp
      qed
    qed
  qed
  with len show ?case by blast
qed

lemma annotate_result:
  assumes ret: "annotate clustering variants seq = Inr (out_df, out_seq)"
    and d: "distinct (map fst variants)" and nn: "\<forall>k \<in> fst ` set variants. 0 \<le> k"
  defines "base_psns \<equiv> sort (map fst variants)"
  defines "final \<equiv> (case clustering of
                       None \<Rightarrow> variants
                     | Some cutoff \<Rightarrow>
                         suppress_clustered cutoff base_psns (interior base_psns) variants)"
  shows "out_df = filter (\<lambda>(pos, base). base \<noteq> CHR ''N'' \<and> pos > 0) final"
    and "length out_seq = length seq"
    and "\<forall>j < length seq.
           if (\<exists>i. 1 \<le> i \<and> i + 1 < length base_psns \<and> base_psns ! i = int j)
           then map_of final (int j) = Some (out_seq ! j)
           else out_seq ! j = seq ! j"
    and "base_psns \<noteq> [] \<longrightarrow>
           map_of final (hd base_psns) = map_of variants (hd base_psns)
         \<and> map_of final (last base_psns) = map_of variants (last base_psns)
         \<and> \<not> (\<exists>i. 1 \<le> i \<and> i + 1 < length base_psns \<and> base_psns ! i = hd base_psns)
         \<and> \<not> (\<exists>i. 1 \<le> i \<and> i + 1 < length base_psns \<and> base_psns ! i = last base_psns)"
proof -
  have db: "distinct base_psns" using d by (simp add: base_psns_def)
  have sb: "set base_psns = fst ` set variants" by (simp add: base_psns_def)
  have int_set: "set (interior base_psns) = {i. 1 \<le> i \<and> i + 1 < length base_psns}"
    by (auto simp: interior_def)
  have img: "\<And>k. (k \<in> (\<lambda>i. base_psns ! i) ` set (interior base_psns))
               = (\<exists>i. 1 \<le> i \<and> i + 1 < length base_psns \<and> base_psns ! i = k)"
    unfolding int_set by auto
  have in_keys: "\<forall>i \<in> set (interior base_psns). base_psns ! i \<in> fst ` set variants"
  proof
    fix i assume "i \<in> set (interior base_psns)"
    then have "i < length base_psns" unfolding int_set by simp
    then have "base_psns ! i \<in> set base_psns" by (rule nth_mem)
    then show "base_psns ! i \<in> fst ` set variants" unfolding sb .
  qed
  from ret [unfolded annotate_def Let_def, folded base_psns_def, folded final_def]
  have w: "write_bases base_psns (interior base_psns) final seq = Inr out_seq"
    and o: "out_df = accepted final"
    by (auto split: sum.splits)
  from o show "out_df = filter (\<lambda>(pos, base). base \<noteq> CHR ''N'' \<and> pos > 0) final"
    by (simp add: accepted_def)
  have nn_i: "\<forall>i \<in> set (interior base_psns). 0 \<le> base_psns ! i"
    using in_keys nn by blast
  have "inj_on (\<lambda>i. base_psns ! i) (set (interior base_psns))"
    using db int_set by (auto simp: inj_on_def nth_eq_iff_index_eq)
  then have di: "distinct (map (\<lambda>i. base_psns ! i) (interior base_psns))"
    by (simp add: distinct_map interior_def)
  from write_bases_result [OF w nn_i di]
  show "length out_seq = length seq"
    and "\<forall>j < length seq.
           if (\<exists>i. 1 \<le> i \<and> i + 1 < length base_psns \<and> base_psns ! i = int j)
           then map_of final (int j) = Some (out_seq ! j)
           else out_seq ! j = seq ! j"
    unfolding img by blast+
  show "base_psns \<noteq> [] \<longrightarrow>
           map_of final (hd base_psns) = map_of variants (hd base_psns)
         \<and> map_of final (last base_psns) = map_of variants (last base_psns)
         \<and> \<not> (\<exists>i. 1 \<le> i \<and> i + 1 < length base_psns \<and> base_psns ! i = hd base_psns)
         \<and> \<not> (\<exists>i. 1 \<le> i \<and> i + 1 < length base_psns \<and> base_psns ! i = last base_psns)"
  proof
    assume ne: "base_psns \<noteq> []"
    then have h: "hd base_psns = base_psns ! 0" and l: "last base_psns = base_psns ! (length base_psns - 1)"
      by (simp_all add: hd_conv_nth last_conv_nth)
    have len: "0 < length base_psns" using ne by simp
    have nh: "\<not> (\<exists>i. 1 \<le> i \<and> i + 1 < length base_psns \<and> base_psns ! i = hd base_psns)"
      unfolding h using db len by (auto simp: nth_eq_iff_index_eq)
    have nl: "\<not> (\<exists>i. 1 \<le> i \<and> i + 1 < length base_psns \<and> base_psns ! i = last base_psns)"
      unfolding l using db len by (auto simp: nth_eq_iff_index_eq)
    have keep: "\<And>k. k \<notin> (\<lambda>i. base_psns ! i) ` set (interior base_psns)
                  \<Longrightarrow> map_of final k = map_of variants k"
      using suppress_clustered_keys [OF in_keys] by (simp add: final_def split: option.splits)
    from nh nl img keep
    show "map_of final (hd base_psns) = map_of variants (hd base_psns)
         \<and> map_of final (last base_psns) = map_of variants (last base_psns)
         \<and> \<not> (\<exists>i. 1 \<le> i \<and> i + 1 < length base_psns \<and> base_psns ! i = hd base_psns)
         \<and> \<not> (\<exists>i. 1 \<le> i \<and> i + 1 < length base_psns \<and> base_psns ! i = last base_psns)"
      by blast
  qed
qed

text \<open>
  C2. When \<^verbatim>\<open>mark_mixed\<close> returns, on a table with positions from 1 on: with the
  candidates collected from the table and their positions sorted, the first and the last
  candidate keep the code they were given, whatever the clustering cutoff, and their
  positions are none of the interior ones; the sequence returned has the length of the
  sequence given, holds the code of the candidate at each interior position (index 1 to
  n - 2 of the sorted positions) and the given character everywhere else; and the table
  returned holds the candidates whose code is not N and whose position is above 0.
\<close>

theorem mark_mixed_boundary:
  assumes "mark_mixed B marker seq df = (Inr (out_df, out_seq), marker1)"
    and "list_all (\<lambda>row. 1 \<le> col_pos row) df"
  shows "\<exists>variants base_psns final.
           fst (collect_variants B marker (map col_pos df) df (marker_bt marker) []) = Inr variants
         \<and> base_psns = sort (map fst variants)
         \<and> final = (case clustering_cutoff marker of
                       None \<Rightarrow> variants
                     | Some cutoff \<Rightarrow>
                         suppress_clustered cutoff base_psns (interior base_psns) variants)
         \<and> (base_psns \<noteq> [] \<longrightarrow>
               map_of final (hd base_psns) = map_of variants (hd base_psns)
             \<and> map_of final (last base_psns) = map_of variants (last base_psns)
             \<and> \<not> (\<exists>i. 1 \<le> i \<and> i + 1 < length base_psns \<and> base_psns ! i = hd base_psns)
             \<and> \<not> (\<exists>i. 1 \<le> i \<and> i + 1 < length base_psns \<and> base_psns ! i = last base_psns))
         \<and> length out_seq = length seq
         \<and> (\<forall>j < length seq.
               if (\<exists>i. 1 \<le> i \<and> i + 1 < length base_psns \<and> base_psns ! i = int j)
               then map_of final (int j) = Some (out_seq ! j)
               else out_seq ! j = seq ! j)
         \<and> out_df = filter (\<lambda>(pos, base). base \<noteq> CHR ''N'' \<and> pos > 0) final"
proof -
  from assms(1) obtain variants b where
    c: "collect_variants B marker (map col_pos df) df (marker_bt marker) [] = (Inr variants, b)"
    and a: "annotate (clustering_cutoff marker) variants seq = Inr (out_df, out_seq)"
    by (auto simp: mark_mixed_def split: prod.splits sum.splits)
  from collect_variants_keys [OF c _ _ assms(2)]
  have d: "distinct (map fst variants)" and nn: "\<forall>k \<in> fst ` set variants. 0 \<le> k"
    by simp_all
  from annotate_result [OF a d nn] c show ?thesis by simp
qed

lemmas mark_eval = mark_mixed_def marker0_def mixed_def mark_row_def top2_def iupac_def
  annotate_def interior_def accepted_def list_set_def seq10_def

lemma mark_df4:
  "mark_mixed B0 marker0 seq10 df4
     = (Inr ([(1, CHR ''r''), (4, CHR ''y''), (9, CHR ''S'')],
             ''ACGTyCGNAC''), marker0)"
  by (simp add: mark_eval df4_def)

text \<open>
  The theorem at four candidates at the positions 1, 4, 7 and 9 with cutoff 2: position 4
  gets its code, position 7 gets N, positions 1 and 9 are not written, and the table
  returned holds 1, 4 and 9.
\<close>

theorem mark_mixed_boundary_witness:
  "list_all (\<lambda>row. 1 \<le> col_pos row) df4
   \<and> mark_mixed B0 marker0 seq10 df4
       = (Inr ([(1, CHR ''r''), (4, CHR ''y''), (9, CHR ''S'')],
               ''ACGTyCGNAC''), marker0)
   \<and> (\<exists>variants base_psns final.
           fst (collect_variants B0 marker0 (map col_pos df4) df4 (marker_bt marker0) [])
             = Inr variants
         \<and> base_psns = sort (map fst variants)
         \<and> final = (case clustering_cutoff marker0 of
                       None \<Rightarrow> variants
                     | Some cutoff \<Rightarrow>
                         suppress_clustered cutoff base_psns (interior base_psns) variants)
         \<and> length ''ACGTyCGNAC'' = length seq10
         \<and> [(1, CHR ''r''), (4, CHR ''y''), (9, CHR ''S'')]
             = filter (\<lambda>(pos, base). base \<noteq> CHR ''N'' \<and> pos > 0) final)"
proof -
  have p: "list_all (\<lambda>row. 1 \<le> col_pos row) df4"
    by (simp add: df4_def mixed_def)
  from mark_mixed_boundary [OF mark_df4 p] p mark_df4 show ?thesis
    by blast
qed

text \<open>
  C4. Two candidates at the table positions 3 and 5, with the clustering cutoff 2: the
  table returned holds both with their codes r and R, none is N, and the sequence is
  returned as given.
\<close>

theorem two_clustered_not_suppressed:
  "clustering_cutoff marker0 = Some 2
   \<and> map col_pos df2 = [3, 5]
   \<and> mark_mixed B0 marker0 seq10 df2
       = (Inr ([(2, CHR ''r''), (4, CHR ''R'')], seq10), marker0)"
  by (simp add: mark_eval df2_def)

end
